theory Spec2Isabelle
  imports Complex_Main "HOL-Library.AList"
begin

section \<open>Numbers and strings of the source language\<close>

text \<open>
  The server is TypeScript. Its numbers are modelled as exact rationals: the results
  \<open>NaN\<close> and \<open>\<plusminus>Infinity\<close> of a conversion are the value \<open>None\<close> of
  \<open>rat option\<close>, and the rounding of IEEE doubles is not part of the model. A string is a
  \<open>string\<close>, \<open>undefined\<close> is \<open>None\<close> of \<open>string option\<close>.
\<close>

type_synonym jsstring = "string option"

text \<open>Truthiness of a \<open>string | undefined\<close> value: \<open>undefined\<close> and \<open>""\<close> are falsy.\<close>

definition truthy :: "jsstring \<Rightarrow> bool" where
  "truthy v = (case v of None \<Rightarrow> False | Some s \<Rightarrow> s \<noteq> [])"

text \<open>\<open>a || b\<close> on strings and on numbers (no number of the model is \<open>NaN\<close>).\<close>

definition or_str :: "jsstring \<Rightarrow> jsstring \<Rightarrow> jsstring" where
  "or_str a b = (if truthy a then a else b)"

definition or_num :: "rat \<Rightarrow> rat \<Rightarrow> rat" where
  "or_num a b = (if a \<noteq> 0 then a else b)"

text \<open>\<open>s.startsWith(p)\<close> and \<open>s.includes(p)\<close> (named includesStr here).\<close>

fun startsWith :: "string \<Rightarrow> string \<Rightarrow> bool" where
  "startsWith s [] = True"
| "startsWith [] (p # ps) = False"
| "startsWith (c # cs) (p # ps) = (c = p \<and> startsWith cs ps)"

fun includesStr :: "string \<Rightarrow> string \<Rightarrow> bool" where
  "includesStr [] p = (p = [])"
| "includesStr (c # cs) p = (startsWith (c # cs) p \<or> includesStr cs p)"

subsection \<open>\<open>Number(cleaned)\<close> on the alphabet left by \<open>parseNumber\<close>\<close>

definition digit_of :: "char \<Rightarrow> nat option" where
  "digit_of c =
     (let n = (of_char c :: nat) in if 48 \<le> n \<and> n \<le> 57 then Some (n - 48) else None)"

fun digits_value :: "string \<Rightarrow> nat \<Rightarrow> nat option" where
  "digits_value [] acc = Some acc"
| "digits_value (c # cs) acc =
     (case digit_of c of None \<Rightarrow> None | Some d \<Rightarrow> digits_value cs (10 * acc + d))"

text \<open>
  \<open>Number(s)\<close> for a string \<open>s\<close> over digits, \<open>.\<close> and \<open>-\<close>, the only strings
  \<open>parseNumber\<close> passes to it. By the StringToNumber grammar of the language the empty
  string is 0, and otherwise \<open>s\<close> is a number exactly when it is an optional \<open>-\<close>
  followed by \<open>digits\<close>, \<open>digits.\<close>, \<open>digits.digits\<close> or \<open>.digits\<close>; every
  other string gives \<open>NaN\<close>.
\<close>

definition Number_cleaned :: "string \<Rightarrow> rat option" where
  "Number_cleaned s =
     (if s = [] then Some 0
      else
        let neg = (hd s = CHR ''-'');
            body = (if neg then tl s else s);
            ip = takeWhile (\<lambda>c. c \<noteq> CHR ''.'') body;
            rest = dropWhile (\<lambda>c. c \<noteq> CHR ''.'') body;
            fp = tl rest
        in if ip = [] \<and> fp = [] then None
           else (case (digits_value ip 0, digits_value fp 0) of
                   (Some i, Some f) \<Rightarrow>
                     Some ((if neg then - 1 else 1) * (of_nat i + of_nat f / 10 ^ length fp))
                 | _ \<Rightarrow> None))"

subsection \<open>reports.ts: the numeric extractors\<close>

text \<open>The character class \<open>[0-9.-]\<close> kept by \<open>value.replace(/[^0-9.-]/g, "")\<close>.\<close>

definition numeric_char :: "char \<Rightarrow> bool" where
  "numeric_char c = (digit_of c \<noteq> None \<or> c = CHR ''.'' \<or> c = CHR ''-'')"

definition parseNumber :: "jsstring \<Rightarrow> rat" where
  "parseNumber v =
     (if \<not> truthy v then 0
      else
        let cleaned = filter numeric_char (the v);
            parsed = Number_cleaned cleaned
        in (case parsed of Some r \<Rightarrow> r | None \<Rightarrow> 0))"

definition parsePercent :: "jsstring \<Rightarrow> rat" where
  "parsePercent v =
     (if \<not> truthy v then 0
      else if includesStr (the v) ''%'' then parseNumber v / 100
      else
        let parsed = parseNumber v
        in if parsed > 1 then parsed / 100 else parsed)"

text \<open>
  A report row is a \<open>Record<string, string>\<close>: an association list in insertion order,
  as \<open>Object.entries\<close> enumerates it. \<open>row[k]\<close> is \<open>map_of row k\<close>.
\<close>

type_synonym row = "(string \<times> string) list"

text \<open>
  \<open>computeAge90Plus\<close>: the \<open>for\<close> loop over \<open>Object.entries(row)\<close> with its running
  \<open>total\<close> (the accumulator \<open>acc\<close>); the two \<open>continue\<close> statements are the first two branches.
\<close>

fun computeAge90Plus_loop :: "row \<Rightarrow> rat \<Rightarrow> rat" where
  "computeAge90Plus_loop [] acc = acc"
| "computeAge90Plus_loop ((key, v) # entries) acc =
     (if \<not> startsWith key ''inv-age-'' then computeAge90Plus_loop entries acc
      else if includesStr key ''0-to-90'' \<or> includesStr key ''0-to-30''
              \<or> includesStr key ''31-to-60'' \<or> includesStr key ''61-to-90''
        then computeAge90Plus_loop entries acc
      else computeAge90Plus_loop entries (acc + parseNumber (Some v)))"

definition computeAge90Plus :: "row \<Rightarrow> rat" where
  "computeAge90Plus r = computeAge90Plus_loop r 0"

subsection \<open>reports.ts: the tab-delimited parser\<close>

text \<open>
  A character stands for a UTF-16 code unit below 256. In that range the white space of
  \<open>trim()\<close> and of the regular expression class \<open>\s\<close> is TAB, LF, VT, FF, CR, SPACE
  and NBSP, and \<open>toLowerCase()\<close> moves \<open>A-Z\<close> and the accented capitals
  \<open>0xC0-0xDE\<close> (without the sign \<open>0xD7\<close>) up by 32.
\<close>

definition isSpace :: "char \<Rightarrow> bool" where
  "isSpace c = (of_char c \<in> {9, 10, 11, 12, 13, 32, 160 :: nat})"

definition trim :: "string \<Rightarrow> string" where
  "trim s = rev (dropWhile isSpace (rev (dropWhile isSpace s)))"

definition toLowerChar :: "char \<Rightarrow> char" where
  "toLowerChar c =
     (let n = (of_char c :: nat)
      in if (65 \<le> n \<and> n \<le> 90) \<or> (192 \<le> n \<and> n \<le> 222 \<and> n \<noteq> 215)
         then char_of (n + 32) else c)"

definition toLowerCase :: "string \<Rightarrow> string" where
  "toLowerCase s = map toLowerChar s"

text \<open>\<open>s.replace(/[\s_]+/g, "-")\<close>: every maximal run of white space and underscores
  becomes one hyphen. The flag says whether the previous character was part of a run.\<close>

fun collapseRuns :: "bool \<Rightarrow> string \<Rightarrow> string" where
  "collapseRuns inRun [] = []"
| "collapseRuns inRun (c # cs) =
     (if isSpace c \<or> c = CHR ''_''
      then (if inRun then collapseRuns True cs else CHR ''-'' # collapseRuns True cs)
      else c # collapseRuns False cs)"

definition normalizeHeader :: "string \<Rightarrow> string" where
  "normalizeHeader header = collapseRuns False (toLowerCase (trim header))"

text \<open>\<open>s.split(sep)\<close> for a one-character separator; the accumulator is the piece being
  read, reversed.\<close>

fun splitOn :: "char \<Rightarrow> string \<Rightarrow> string \<Rightarrow> string list" where
  "splitOn sep cur [] = [rev cur]"
| "splitOn sep cur (c # cs) =
     (if c = sep then rev cur # splitOn sep [] cs else splitOn sep (c # cur) cs)"

text \<open>\<open>content.split(/\r?\n/)\<close>: a CR directly before the LF belongs to the separator.\<close>

fun splitLines :: "string \<Rightarrow> string \<Rightarrow> string list" where
  "splitLines cur [] = [rev cur]"
| "splitLines cur (c # cs) =
     (if c = CHR 0x0A then rev cur # splitLines [] cs
      else if c = CHR 0x0D \<and> cs \<noteq> [] \<and> hd cs = CHR 0x0A then rev cur # splitLines [] (tl cs)
      else splitLines (c # cur) cs)"

text \<open>\<open>headers.forEach((header, idx) => { row[header] = (values[idx] ?? "").trim(); })\<close>:
  assigning to a key already present replaces its value and keeps its place.\<close>

fun fillRow :: "string list \<Rightarrow> string list \<Rightarrow> row \<Rightarrow> row" where
  "fillRow [] vals r = r"
| "fillRow (header # hs) vals r =
     fillRow hs (tl vals) (AList.update header (trim (case vals of [] \<Rightarrow> [] | v # _ \<Rightarrow> v)) r)"

definition parseTabDelimited :: "string \<Rightarrow> row list" where
  "parseTabDelimited content =
     (let lines = filter (\<lambda>line. length (trim line) > 0) (splitLines [] content)
      in if length lines = 0 then []
         else
           let headers = map normalizeHeader (splitOn (CHR 0x09) [] (hd lines))
           in map (\<lambda>line. fillRow headers (splitOn (CHR 0x09) [] line) []) (tl lines))"

section \<open>index.ts: the data model\<close>

text \<open>
  Field \<open>f\<close> of a source type is named with a short prefix of the type
  (\<open>pl_\<close> PlanningItem, \<open>pc_\<close> PlanningCache, \<open>it_\<close> StoreInventoryItem,
  \<open>sh_\<close> StoreShipment, \<open>sc_\<close> the shipment cache entry, \<open>sd_\<close> StoreData), since several
  types share field names.
\<close>

datatype StoreKey = US | CA | UK | AU

record PlanningItem =
  pl_sku :: string
  pl_title :: string
  pl_available :: rat
  pl_inbound :: rat
  pl_reserved :: rat
  pl_sales7d :: rat
  pl_sellThrough :: rat
  pl_age90plusUnits :: rat
  pl_estimatedLtsf :: rat
  pl_estimatedStorage :: rat

text \<open>A \<open>Map<string, PlanningItem>\<close> in insertion order: \<open>set\<close> is \<open>AList.update\<close>,
  \<open>delete\<close> is \<open>AList.delete\<close>, \<open>get\<close> is \<open>map_of\<close>, \<open>values()\<close> is \<open>map snd\<close>.\<close>

type_synonym items_map = "(string \<times> PlanningItem) list"

record PlanningCache =
  pc_fetchedAt :: rat
  pc_items :: items_map
  pc_agingRisk :: rat

record StoreShipment =
  sh_id :: string
  sh_status :: string
  sh_eta :: string
  sh_units :: rat

record ShipmentsCache =
  sc_fetchedAt :: rat
  sc_shipments :: "StoreShipment list"

record StoreInventoryItem =
  it_sku :: string
  it_title :: string
  it_onHand :: rat
  it_reserved :: rat
  it_inbound :: rat
  it_sales7d :: rat
  it_age90plus :: bool
  it_stranded :: rat
  it_suppressed :: rat
  it_sellThrough :: rat
  it_margin :: rat

record ReviewStats =
  today :: rat
  last7Days :: rat
  last30Days :: rat
  lastRunAt :: "string option"

record StoreData =
  sd_code :: StoreKey
  sd_name :: string
  sd_marketplace :: string
  sd_currency :: string
  sd_ipiScore :: rat
  sd_storageUtilization :: rat
  sd_agingRisk :: rat
  sd_strandedUnits :: rat
  sd_suppressedUnits :: rat
  sd_inventory :: "StoreInventoryItem list"
  sd_shipments :: "StoreShipment list"
  sd_warnings :: "string list"
  sd_reviewStats :: ReviewStats

definition REPORT_CACHE_TTL_MS :: rat where
  "REPORT_CACHE_TTL_MS = 6 * 60 * 60 * 1000"

definition REPORT_COOLDOWN_MS :: rat where
  "REPORT_COOLDOWN_MS = 15 * 60 * 1000"

definition SHIPMENTS_CACHE_TTL_MS :: rat where
  "SHIPMENTS_CACHE_TTL_MS = 5 * 60 * 1000"

definition REPORT_STORES :: "StoreKey list" where
  "REPORT_STORES = [US]"

section \<open>The upstream API and the process state\<close>

text \<open>
  The calls that leave the process. \<open>spApiGet\<close>, \<open>spApiPost\<close> and \<open>axios.get\<close> are not
  modelled further: a call is recorded, takes some time and yields its payload or the
  error it throws. The report type is always \<open>GET_FBA_INVENTORY_PLANNING_DATA\<close>, and the
  marketplace id and the credentials of a call are those of its store.
\<close>

datatype upstream_call =
    InventorySummaries StoreKey
  | InboundShipments StoreKey rat
  | CreateReport StoreKey
  | ListReports StoreKey rat
  | GetReport StoreKey string
  | GetReportDocument StoreKey string
  | DownloadReport string "string option"

text \<open>
  A thrown error, as far as the code looks at it: \<open>error.response.status\<close>, the number
  \<open>Number(error.response.headers["retry-after"] ?? 0)\<close> (\<open>None\<close> when that is \<open>NaN\<close>) and
  the text that \<open>getErrorSummary\<close> prints.
\<close>

record http_error =
  err_status :: "nat option"
  err_retryAfter :: "rat option"
  err_summary :: string

text \<open>Report metadata of \<open>listReports\<close>, \<open>getReport\<close> and \<open>getReportDocument\<close>.\<close>

record report_info =
  ri_reportId :: jsstring
  ri_reportDocumentId :: jsstring
  ri_createdTime :: jsstring
  ri_processingStatus :: jsstring

record report_status =
  rs_processingStatus :: jsstring
  rs_reportDocumentId :: jsstring

record ReportDocumentPayload =
  url :: string
  compressionAlgorithm :: jsstring

text \<open>
  A numeric candidate handed to \<open>pickNumber\<close>: absent, \<open>null\<close>, the empty string, a finite
  number, or a number that is not finite. Other strings, which \<open>pickNumber\<close> would convert
  with \<open>Number\<close>, are outside the model.
\<close>

datatype jsnum = JUndefined | JNull | JEmpty | JNum rat | JNonFinite

record inventoryDetails =
  d_fulfillableQuantity :: jsnum
  d_totalQuantity :: jsnum
  d_reservedQuantity_totalReservedQuantity :: jsnum
  d_inboundQuantity :: jsnum
  d_inboundWorkingQuantity :: jsnum
  d_inboundShippedQuantity :: jsnum
  d_inboundReceivingQuantity :: jsnum

record summary =
  s_inventoryDetails :: "inventoryDetails option"
  s_totalQuantity :: jsnum
  s_totalAvailableQuantity :: jsnum
  s_totalReservedQuantity :: jsnum
  s_totalInboundQuantity :: jsnum
  s_inboundWorkingQuantity :: jsnum
  s_totalInboundWorkingQuantity :: jsnum
  s_inboundShippedQuantity :: jsnum
  s_totalInboundShippedQuantity :: jsnum
  s_inboundReceivingQuantity :: jsnum
  s_totalInboundReceivingQuantity :: jsnum
  s_sellerSku :: jsstring
  s_asin :: jsstring
  s_productName :: jsstring
  s_itemName :: jsstring
  s_itemTitle :: jsstring
  s_title :: jsstring

record raw_shipment =
  r_ShipmentId :: jsstring
  r_shipmentId :: jsstring
  r_ShipmentStatus :: jsstring
  r_shipmentStatus :: jsstring
  r_EstimatedArrivalDate :: jsstring
  r_estimatedArrivalDate :: jsstring
  r_ExpectedArrivalDate :: jsstring
  r_expectedArrivalDate :: jsstring
  r_TotalUnits :: jsnum
  r_totalUnits :: jsnum
  r_TotalQuantity :: jsnum
  r_totalQuantity :: jsnum
  r_BoxCount :: jsnum
  r_boxCount :: jsnum

record shipments_payload =
  p_ShipmentData :: "raw_shipment list option"
  p_shipmentData :: "raw_shipment list option"

text \<open>
  The environment of a run: the credentials read at start-up, and the upstream API as
  functions of the calls made so far (the call being answered is the last of the list).
  \<open>formatDate\<close> is \<open>new Date(s).toLocaleDateString("en-US", ...)\<close>, \<open>None\<close> for an invalid
  date; \<open>localeCompare\<close> is the comparison of that name.
\<close>

record env =
  lwaClientId :: string
  lwaClientSecret :: string
  REFRESH_TOKEN_NA :: string
  REFRESH_TOKEN_EU :: string
  REFRESH_TOKEN_AU :: string
  latency :: "upstream_call list \<Rightarrow> rat"
  inventory_rsp :: "upstream_call list \<Rightarrow> http_error + summary list option"
  shipments_rsp :: "upstream_call list \<Rightarrow> http_error + shipments_payload option"
  createReport_rsp :: "upstream_call list \<Rightarrow> http_error + string"
  listReports_rsp :: "upstream_call list \<Rightarrow> http_error + report_info list option"
  getReport_rsp :: "upstream_call list \<Rightarrow> http_error + report_status option"
  getReportDocument_rsp :: "upstream_call list \<Rightarrow> http_error + ReportDocumentPayload option"
  downloadReport_rsp :: "upstream_call list \<Rightarrow> http_error + string"
  formatDate :: "string \<Rightarrow> string option"
  localeCompare :: "string \<Rightarrow> string \<Rightarrow> int"

text \<open>The lines written with \<open>console.log\<close>, \<open>console.warn\<close> and \<open>console.error\<close>.\<close>

datatype log_line =
    InventoryFetchFailed StoreKey http_error
  | ShipmentsFetchFailed StoreKey http_error
  | PlanningReportFailed StoreKey http_error
  | RateLimitedCoolingDown rat
  | PlanningHeadersSample "string list"
  | PlanningReportCached StoreKey nat
  | PlanningFinishedWhilePolling StoreKey
  | PlanningAlreadyProcessing StoreKey string
  | PlanningReused StoreKey

text \<open>
  The module-level variables of index.ts, with the clock (\<open>Date.now()\<close>), the calls made
  and the console output.
\<close>

record server =
  planningCache :: "StoreKey \<Rightarrow> PlanningCache option"
  reportCooldownUntil :: "StoreKey \<Rightarrow> rat option"
  shipmentsCache :: "StoreKey \<Rightarrow> ShipmentsCache option"
  planningReportHeadersLogged :: bool
  reviewStats :: ReviewStats
  clock :: rat
  calls :: "upstream_call list"
  console :: "log_line list"

definition perform :: "env \<Rightarrow> upstream_call \<Rightarrow> server \<Rightarrow> server" where
  "perform e c s = s\<lparr>calls := calls s @ [c], clock := clock s + latency e (calls s @ [c])\<rparr>"

definition sleep :: "rat \<Rightarrow> server \<Rightarrow> server" where
  "sleep ms s = s\<lparr>clock := clock s + ms\<rparr>"

definition emit :: "log_line \<Rightarrow> server \<Rightarrow> server" where
  "emit l s = s\<lparr>console := console s @ [l]\<rparr>"

subsection \<open>The caches\<close>

definition getPlanningCache :: "server \<Rightarrow> StoreKey \<Rightarrow> PlanningCache option" where
  "getPlanningCache s store =
     (case planningCache s store of
        None \<Rightarrow> None
      | Some cached \<Rightarrow>
          if clock s - pc_fetchedAt cached > REPORT_CACHE_TTL_MS then None else Some cached)"

definition getShipmentsCache :: "server \<Rightarrow> StoreKey \<Rightarrow> ShipmentsCache option" where
  "getShipmentsCache s store =
     (case shipmentsCache s store of
        None \<Rightarrow> None
      | Some cached \<Rightarrow>
          if clock s - sc_fetchedAt cached > SHIPMENTS_CACHE_TTL_MS then None else Some cached)"

definition refreshToken :: "env \<Rightarrow> StoreKey \<Rightarrow> string" where
  "refreshToken e store =
     (case store of US \<Rightarrow> REFRESH_TOKEN_NA e | CA \<Rightarrow> REFRESH_TOKEN_NA e
      | UK \<Rightarrow> REFRESH_TOKEN_EU e | AU \<Rightarrow> REFRESH_TOKEN_AU e)"

definition hasCredentials :: "env \<Rightarrow> StoreKey \<Rightarrow> bool" where
  "hasCredentials e store =
     (lwaClientId e \<noteq> [] \<and> lwaClientSecret e \<noteq> [] \<and> refreshToken e store \<noteq> [])"

subsection \<open>reports.ts: the Reports API helpers\<close>

definition createReport :: "env \<Rightarrow> StoreKey \<Rightarrow> server \<Rightarrow> (http_error + string) \<times> server" where
  "createReport e store s =
     (let s' = perform e (CreateReport store) s in (createReport_rsp e (calls s'), s'))"

definition listReports ::
  "env \<Rightarrow> StoreKey \<Rightarrow> rat \<Rightarrow> server \<Rightarrow> (http_error + report_info list) \<times> server" where
  "listReports e store createdSince s =
     (let s' = perform e (ListReports store createdSince) s
      in (case listReports_rsp e (calls s') of
            Inl err \<Rightarrow> (Inl err, s')
          | Inr None \<Rightarrow> (Inr [], s')
          | Inr (Some reports) \<Rightarrow> (Inr reports, s')))"

definition getReport ::
  "env \<Rightarrow> StoreKey \<Rightarrow> string \<Rightarrow> server \<Rightarrow> (http_error + report_status option) \<times> server" where
  "getReport e store reportId s =
     (let s' = perform e (GetReport store reportId) s in (getReport_rsp e (calls s'), s'))"

definition getReportDocument ::
  "env \<Rightarrow> StoreKey \<Rightarrow> string \<Rightarrow> server
     \<Rightarrow> (http_error + ReportDocumentPayload option) \<times> server" where
  "getReportDocument e store reportDocumentId s =
     (let s' = perform e (GetReportDocument store reportDocumentId) s
      in (getReportDocument_rsp e (calls s'), s'))"

text \<open>\<open>downloadReport\<close>: the text of the document, after \<open>gunzipSync\<close> when the
  compression algorithm is GZIP, or the error of the transfer or of the decompression.\<close>

definition downloadReport ::
  "env \<Rightarrow> string \<Rightarrow> jsstring \<Rightarrow> server \<Rightarrow> (http_error + string) \<times> server" where
  "downloadReport e u compression s =
     (let s' = perform e (DownloadReport u compression) s in (downloadReport_rsp e (calls s'), s'))"

section \<open>index.ts: the report-job orchestrator\<close>

subsection \<open>\<open>createReportOnce\<close>\<close>

text \<open>The \<open>backoff\<close> of the \<open>catch\<close> block, from the \<open>retry-after\<close> number of the error.\<close>

definition backoff :: "http_error \<Rightarrow> rat" where
  "backoff error =
     (case err_retryAfter error of
        Some retryAfter \<Rightarrow> if retryAfter > 0 then retryAfter * 1000 else REPORT_COOLDOWN_MS
      | None \<Rightarrow> REPORT_COOLDOWN_MS)"

definition createReportOnce ::
  "env \<Rightarrow> StoreKey \<Rightarrow> server \<Rightarrow> (http_error + string) \<times> server" where
  "createReportOnce e store s =
     (case createReport e store s of
        (Inr reportId, s1) \<Rightarrow> (Inr reportId, s1)
      | (Inl error, s1) \<Rightarrow>
          if err_status error = Some 429 then
            let s2 = s1\<lparr>reportCooldownUntil :=
                        (reportCooldownUntil s1)(store \<mapsto> clock s1 + backoff error)\<rparr>
            in (Inr [], emit (RateLimitedCoolingDown (backoff error)) s2)
          else (Inl error, s1))"

subsection \<open>Rows to planning items\<close>

text \<open>
  The callback of \<open>rows.forEach\<close>. \<open>cachePlanningReport\<close> and \<open>refreshPlanningReport\<close> hold
  the same text of it; it updates the local \<open>items\<close> map and the local \<open>agingRisk\<close>.
\<close>

definition rowSku :: "row \<Rightarrow> jsstring" where
  "rowSku r =
     or_str (or_str (or_str (map_of r ''sku'') (map_of r ''seller-sku''))
               (map_of r ''seller-sku-sku'')) (Some [])"

definition rowItem :: "row \<Rightarrow> PlanningItem" where
  "rowItem r =
     (let sku = the (rowSku r);
          title = the (or_str (or_str (map_of r ''product-name'') (map_of r ''item-name'')) (Some []));
          available = parseNumber (or_str (map_of r ''available'') (map_of r ''available-quantity''));
          inbound =
            parseNumber (map_of r ''inbound-working-quantity'') +
            parseNumber (map_of r ''inbound-shipped-quantity'') +
            parseNumber (map_of r ''inbound-receiving-quantity'') +
            parseNumber (map_of r ''inbound-quantity'');
          reserved =
            parseNumber (or_str (map_of r ''reserved-quantity'') (map_of r ''total-reserved-quantity''));
          sales7d =
            or_num (parseNumber (map_of r ''units-shipped-t7''))
                   (parseNumber (map_of r ''sales-shipped-last-7-days''));
          sellThrough = parsePercent (map_of r ''sell-through'');
          age90plusUnits = computeAge90Plus r;
          estimatedLtsf =
            parseNumber (map_of r ''estimated-ltsf-next-charge'') +
            parseNumber (map_of r ''projected-ltsf-11-mo'');
          estimatedStorage = parseNumber (map_of r ''estimated-storage-cost-next-month'')
      in \<lparr>pl_sku = sku, pl_title = title, pl_available = available, pl_inbound = inbound,
          pl_reserved = reserved, pl_sales7d = sales7d, pl_sellThrough = sellThrough,
          pl_age90plusUnits = age90plusUnits, pl_estimatedLtsf = estimatedLtsf,
          pl_estimatedStorage = estimatedStorage\<rparr>)"

definition rowStep :: "items_map \<times> rat \<Rightarrow> row \<Rightarrow> items_map \<times> rat" where
  "rowStep acc r =
     (case acc of (items, agingRisk) \<Rightarrow>
        if \<not> truthy (rowSku r) then (items, agingRisk)
        else
          let item = rowItem r
          in (AList.update (pl_sku item) item items,
              agingRisk + (pl_estimatedLtsf item + pl_estimatedStorage item)))"

definition forEachRow :: "row list \<Rightarrow> items_map \<times> rat" where
  "forEachRow rows = foldl rowStep ([], 0) rows"

subsection \<open>\<open>cachePlanningReport\<close>\<close>

definition cachePlanningReport :: "StoreKey \<Rightarrow> string \<Rightarrow> server \<Rightarrow> server" where
  "cachePlanningReport store content s =
     (let rows = parseTabDelimited content;
          s1 = (if \<not> planningReportHeadersLogged s \<and> length rows > 0
                then emit (PlanningHeadersSample (take 50 (map fst (hd rows))))
                       (s\<lparr>planningReportHeadersLogged := True\<rparr>)
                else s);
          (items, agingRisk) = forEachRow rows;
          s2 = s1\<lparr>planningCache := (planningCache s1)(store \<mapsto>
                 \<lparr>pc_fetchedAt = clock s1, pc_items = items, pc_agingRisk = agingRisk\<rparr>)\<rparr>
      in emit (PlanningReportCached store (length items)) s2)"

subsection \<open>\<open>loadLatestPlanningReport\<close>\<close>

text \<open>\<open>reports.filter(...).sort(cmp)[0]\<close>: the sort is stable, modelled by insertion.\<close>

fun insert_by :: "('a \<Rightarrow> 'a \<Rightarrow> int) \<Rightarrow> 'a \<Rightarrow> 'a list \<Rightarrow> 'a list" where
  "insert_by cmp x [] = [x]"
| "insert_by cmp x (y # ys) = (if cmp x y \<le> 0 then x # y # ys else y # insert_by cmp x ys)"

definition sort_by :: "('a \<Rightarrow> 'a \<Rightarrow> int) \<Rightarrow> 'a list \<Rightarrow> 'a list" where
  "sort_by cmp xs = foldr (insert_by cmp) xs []"

definition createdTime_or_empty :: "report_info \<Rightarrow> string" where
  "createdTime_or_empty r = (case ri_createdTime r of None \<Rightarrow> [] | Some t \<Rightarrow> t)"

definition latestReport :: "env \<Rightarrow> report_info list \<Rightarrow> report_info option" where
  "latestReport e reports =
     (case sort_by (\<lambda>a b. localeCompare e (createdTime_or_empty b) (createdTime_or_empty a))
             (filter (\<lambda>report. truthy (ri_createdTime report)) reports) of
        [] \<Rightarrow> None
      | latest # _ \<Rightarrow> Some latest)"

definition document_url :: "ReportDocumentPayload option \<Rightarrow> string" where
  "document_url document = (case document of None \<Rightarrow> [] | Some d \<Rightarrow> url d)"

definition is_done :: "report_status option \<Rightarrow> bool" where
  "is_done report =
     (case report of None \<Rightarrow> False
      | Some r \<Rightarrow> rs_processingStatus r = Some ''DONE'' \<and> truthy (rs_reportDocumentId r))"

definition is_terminal_failure :: "report_status option \<Rightarrow> bool" where
  "is_terminal_failure report =
     (case report of None \<Rightarrow> False
      | Some r \<Rightarrow> rs_processingStatus r = Some ''CANCELLED'' \<or> rs_processingStatus r = Some ''FATAL'')"

text \<open>The polling loop of \<open>loadLatestPlanningReport\<close>; the first argument counts the
  attempts that remain of the 12, and the case 0 is the code after the loop.\<close>

fun pollLatest ::
  "nat \<Rightarrow> env \<Rightarrow> StoreKey \<Rightarrow> string \<Rightarrow> string \<Rightarrow> server \<Rightarrow> (http_error + bool) \<times> server" where
  "pollLatest 0 e store reportId status s =
     (Inr True, emit (PlanningAlreadyProcessing store status) s)"
| "pollLatest (Suc n) e store reportId status s =
     (case getReport e store reportId s of
        (Inl err, s1) \<Rightarrow> (Inl err, s1)
      | (Inr report, s1) \<Rightarrow>
          if is_done report then
            (case getReportDocument e store (the (rs_reportDocumentId (the report))) s1 of
               (Inl err, s2) \<Rightarrow> (Inl err, s2)
             | (Inr document, s2) \<Rightarrow>
                 if document_url document = [] then (Inr True, s2)
                 else
                   (case downloadReport e (document_url document)
                           (compressionAlgorithm (the document)) s2 of
                      (Inl err, s3) \<Rightarrow> (Inl err, s3)
                    | (Inr content, s3) \<Rightarrow>
                        (Inr True,
                         emit (PlanningFinishedWhilePolling store)
                           (cachePlanningReport store content s3))))
          else if is_terminal_failure report then (Inr False, s1)
          else pollLatest n e store reportId status (sleep 10000 s1))"

definition loadLatestPlanningReport ::
  "env \<Rightarrow> StoreKey \<Rightarrow> server \<Rightarrow> (http_error + bool) \<times> server" where
  "loadLatestPlanningReport e store s =
     (let createdSince = clock s - 24 * 60 * 60 * 1000
      in case listReports e store createdSince s of
           (Inl err, s1) \<Rightarrow> (Inl err, s1)
         | (Inr reports, s1) \<Rightarrow>
             if length reports = 0 then (Inr False, s1)
             else
               (case latestReport e reports of
                  None \<Rightarrow> (Inr False, s1)
                | Some latest \<Rightarrow>
                    if truthy (ri_processingStatus latest)
                       \<and> ri_processingStatus latest \<noteq> Some ''DONE'' then
                      (if truthy (ri_reportId latest)
                       then pollLatest 12 e store (the (ri_reportId latest))
                              (the (ri_processingStatus latest)) s1
                       else (Inr True,
                             emit (PlanningAlreadyProcessing store (the (ri_processingStatus latest))) s1))
                    else if \<not> truthy (ri_reportDocumentId latest) then (Inr False, s1)
                    else
                      (case getReportDocument e store (the (ri_reportDocumentId latest)) s1 of
                         (Inl err, s2) \<Rightarrow> (Inl err, s2)
                       | (Inr document, s2) \<Rightarrow>
                           if document_url document = [] then (Inr False, s2)
                           else
                             (case downloadReport e (document_url document)
                                     (compressionAlgorithm (the document)) s2 of
                                (Inl err, s3) \<Rightarrow> (Inl err, s3)
                              | (Inr content, s3) \<Rightarrow>
                                  (Inr True,
                                   emit (PlanningReused store)
                                     (cachePlanningReport store content s3))))))"

subsection \<open>\<open>refreshPlanningReport\<close>\<close>

text \<open>The polling loop of \<open>refreshPlanningReport\<close>; it yields \<open>reportDocumentId\<close>, empty
  when the loop ends without a finished report.\<close>

fun pollReport ::
  "nat \<Rightarrow> env \<Rightarrow> StoreKey \<Rightarrow> string \<Rightarrow> server \<Rightarrow> (http_error + string) \<times> server" where
  "pollReport 0 e store reportId s = (Inr [], s)"
| "pollReport (Suc n) e store reportId s =
     (case getReport e store reportId s of
        (Inl err, s1) \<Rightarrow> (Inl err, s1)
      | (Inr report, s1) \<Rightarrow>
          if is_done report then (Inr (the (rs_reportDocumentId (the report))), s1)
          else if is_terminal_failure report then (Inr [], s1)
          else pollReport n e store reportId (sleep 10000 s1))"

text \<open>The body of the \<open>try\<close> block: \<open>Inl\<close> is the error that reaches the \<open>catch\<close>.\<close>

definition refreshPlanningReport_try ::
  "env \<Rightarrow> StoreKey \<Rightarrow> server \<Rightarrow> (http_error + unit) \<times> server" where
  "refreshPlanningReport_try e store s =
     (case loadLatestPlanningReport e store s of
        (Inl err, s1) \<Rightarrow> (Inl err, s1)
      | (Inr reused, s1) \<Rightarrow>
          if reused then (Inr (), s1)
          else
            let cooldown = (case reportCooldownUntil s1 store of None \<Rightarrow> 0 | Some c \<Rightarrow> c)
            in if clock s1 < cooldown then (Inr (), s1)
               else
                 (case createReportOnce e store s1 of
                    (Inl err, s2) \<Rightarrow> (Inl err, s2)
                  | (Inr reportId, s2) \<Rightarrow>
                      if reportId = [] then (Inr (), s2)
                      else
                        (case pollReport 12 e store reportId s2 of
                           (Inl err, s3) \<Rightarrow> (Inl err, s3)
                         | (Inr reportDocumentId, s3) \<Rightarrow>
                             if reportDocumentId = [] then (Inr (), s3)
                             else
                               (case getReportDocument e store reportDocumentId s3 of
                                  (Inl err, s4) \<Rightarrow> (Inl err, s4)
                                | (Inr document, s4) \<Rightarrow>
                                    if document_url document = [] then (Inr (), s4)
                                    else
                                      (case downloadReport e (document_url document)
                                              (compressionAlgorithm (the document)) s4 of
                                         (Inl err, s5) \<Rightarrow> (Inl err, s5)
                                       | (Inr content, s5) \<Rightarrow>
                                           let rows = parseTabDelimited content;
                                               (items, agingRisk) = forEachRow rows;
                                               s6 = s5\<lparr>planningCache := (planningCache s5)(store \<mapsto>
                                                      \<lparr>pc_fetchedAt = clock s5, pc_items = items,
                                                       pc_agingRisk = agingRisk\<rparr>)\<rparr>
                                           in (Inr (),
                                               emit (PlanningReportCached store (length items)) s6))))))"

definition refreshPlanningReport :: "env \<Rightarrow> StoreKey \<Rightarrow> server \<Rightarrow> server" where
  "refreshPlanningReport e store s =
     (if \<not> hasCredentials e store then s
      else if getPlanningCache s store \<noteq> None then s
      else
        (case refreshPlanningReport_try e store s of
           (Inl error, s') \<Rightarrow> emit (PlanningReportFailed store error) s'
         | (Inr _, s') \<Rightarrow> s'))"

section \<open>index.ts: the snapshot merge engine\<close>

text \<open>\<open>a ?? b\<close>.\<close>

definition coalesce :: "'a option \<Rightarrow> 'a option \<Rightarrow> 'a option" where
  "coalesce a b = (case a of None \<Rightarrow> b | Some _ \<Rightarrow> a)"

fun pickNumber :: "jsnum list \<Rightarrow> rat option" where
  "pickNumber [] = None"
| "pickNumber (v # vs) =
     (case v of
        JUndefined \<Rightarrow> pickNumber vs
      | JNull \<Rightarrow> pickNumber vs
      | JEmpty \<Rightarrow> pickNumber vs
      | JNum parsed \<Rightarrow> Some parsed
      | JNonFinite \<Rightarrow> pickNumber vs)"

text \<open>A \<open>null\<close> operand of \<open>+\<close> counts as 0.\<close>

definition null_as_zero :: "rat option \<Rightarrow> rat" where
  "null_as_zero v = (case v of None \<Rightarrow> 0 | Some r \<Rightarrow> r)"

definition formatEta :: "env \<Rightarrow> jsstring \<Rightarrow> string" where
  "formatEta e dateString =
     (if \<not> truthy dateString then ''TBD''
      else (case formatDate e (the dateString) of None \<Rightarrow> ''TBD'' | Some d \<Rightarrow> d))"

definition shipmentOf :: "env \<Rightarrow> raw_shipment \<Rightarrow> StoreShipment" where
  "shipmentOf e shipment =
     (let ident = the (coalesce (coalesce (r_ShipmentId shipment) (r_shipmentId shipment))
                     (Some ''UNKNOWN''));
          status = the (coalesce (coalesce (r_ShipmentStatus shipment) (r_shipmentStatus shipment))
                     (Some ''Unknown''));
          etaRaw = coalesce (coalesce (coalesce (r_EstimatedArrivalDate shipment)
                     (r_estimatedArrivalDate shipment)) (r_ExpectedArrivalDate shipment))
                     (r_expectedArrivalDate shipment);
          units = the (coalesce (pickNumber [r_TotalUnits shipment, r_totalUnits shipment,
                     r_TotalQuantity shipment, r_totalQuantity shipment, r_BoxCount shipment,
                     r_boxCount shipment]) (Some 0))
      in \<lparr>sh_id = ident, sh_status = status, sh_eta = formatEta e etaRaw, sh_units = units\<rparr>)"

definition fetchInboundShipments ::
  "env \<Rightarrow> StoreKey \<Rightarrow> server \<Rightarrow> StoreShipment list \<times> server" where
  "fetchInboundShipments e store s =
     (case getShipmentsCache s store of
        Some cached \<Rightarrow> (sc_shipments cached, s)
      | None \<Rightarrow>
          if \<not> hasCredentials e store then ([], s)
          else
            let lastUpdatedAfter = clock s - 30 * 24 * 60 * 60 * 1000;
                s1 = perform e (InboundShipments store lastUpdatedAfter) s
            in (case shipments_rsp e (calls s1) of
                  Inl error \<Rightarrow> ([], emit (ShipmentsFetchFailed store error) s1)
                | Inr payload \<Rightarrow>
                    let data = (case payload of
                                  None \<Rightarrow> []
                                | Some p \<Rightarrow>
                                    the (coalesce (coalesce (p_ShipmentData p) (p_shipmentData p))
                                           (Some [])));
                        shipments = map (shipmentOf e) data
                    in (shipments,
                        s1\<lparr>shipmentsCache := (shipmentsCache s1)(store \<mapsto>
                             \<lparr>sc_fetchedAt = clock s1, sc_shipments = shipments\<rparr>)\<rparr>)))"

definition store_code :: "StoreKey \<Rightarrow> string" where
  "store_code store = (case store of US \<Rightarrow> ''US'' | CA \<Rightarrow> ''CA'' | UK \<Rightarrow> ''UK'' | AU \<Rightarrow> ''AU'')"

definition fallback :: "server \<Rightarrow> StoreKey \<Rightarrow> StoreData" where
  "fallback s store =
     \<lparr>sd_code = store,
      sd_name = (if store = US then ''United States'' else if store = UK then ''United Kingdom''
                 else if store = CA then ''Canada'' else ''Australia''),
      sd_marketplace = ''Amazon '' @ store_code store,
      sd_currency = (if store = US then ''USD'' else if store = UK then ''GBP''
                     else if store = CA then ''CAD'' else ''AUD''),
      sd_ipiScore = 0, sd_storageUtilization = 0, sd_agingRisk = 0, sd_strandedUnits = 0,
      sd_suppressedUnits = 0, sd_inventory = [], sd_shipments = [], sd_warnings = [],
      sd_reviewStats = reviewStats s\<rparr>"

definition no_details :: inventoryDetails where
  "no_details =
     \<lparr>d_fulfillableQuantity = JUndefined, d_totalQuantity = JUndefined,
      d_reservedQuantity_totalReservedQuantity = JUndefined, d_inboundQuantity = JUndefined,
      d_inboundWorkingQuantity = JUndefined, d_inboundShippedQuantity = JUndefined,
      d_inboundReceivingQuantity = JUndefined\<rparr>"

text \<open>The callback of \<open>inventorySummaries.map\<close>.\<close>

definition summaryItem :: "summary \<Rightarrow> StoreInventoryItem" where
  "summaryItem sm =
     (let details = (case s_inventoryDetails sm of None \<Rightarrow> no_details | Some d \<Rightarrow> d);
          fulfillable = pickNumber [d_fulfillableQuantity details];
          totalQuantity = pickNumber [s_totalQuantity sm, d_totalQuantity details,
                            s_totalAvailableQuantity sm];
          reserved = pickNumber [d_reservedQuantity_totalReservedQuantity details,
                       s_totalReservedQuantity sm];
          inboundTotal = pickNumber [d_inboundQuantity details, s_totalInboundQuantity sm];
          inboundWorking = pickNumber [d_inboundWorkingQuantity details,
                             s_inboundWorkingQuantity sm, s_totalInboundWorkingQuantity sm];
          inboundShipped = pickNumber [d_inboundShippedQuantity details,
                             s_inboundShippedQuantity sm, s_totalInboundShippedQuantity sm];
          inboundReceiving = pickNumber [d_inboundReceivingQuantity details,
                               s_inboundReceivingQuantity sm, s_totalInboundReceivingQuantity sm];
          inbound = (case inboundTotal of
                       Some t \<Rightarrow> t
                     | None \<Rightarrow> null_as_zero inboundWorking + null_as_zero inboundShipped
                                + null_as_zero inboundReceiving);
          sku = the (coalesce (coalesce (s_sellerSku sm) (s_asin sm)) (Some ''UNKNOWN''));
          title = the (coalesce (coalesce (coalesce (coalesce (s_productName sm) (s_itemName sm))
                    (s_itemTitle sm)) (s_title sm)) (Some sku))
      in \<lparr>it_sku = sku, it_title = title,
          it_onHand = the (coalesce (coalesce fulfillable totalQuantity) (Some 0)),
          it_reserved = the (coalesce reserved (Some 0)),
          it_inbound = inbound, it_sales7d = 0, it_age90plus = False, it_stranded = 0,
          it_suppressed = 0, it_sellThrough = 0, it_margin = 0\<rparr>)"

text \<open>
  The callback of the second \<open>inventory.map\<close>, with the map \<open>merged\<close> it reads and
  shrinks threaded through the list.
\<close>

definition mergeItem :: "StoreInventoryItem \<Rightarrow> PlanningItem \<Rightarrow> StoreInventoryItem" where
  "mergeItem item planningItem =
     item\<lparr>it_title := (if pl_title planningItem \<noteq> [] then pl_title planningItem else it_title item),
          it_onHand := (if it_onHand item = 0 then pl_available planningItem else it_onHand item),
          it_reserved := (if it_reserved item = 0 then pl_reserved planningItem else it_reserved item),
          it_inbound := (if it_inbound item = 0 then pl_inbound planningItem else it_inbound item),
          it_sales7d := pl_sales7d planningItem,
          it_age90plus := (pl_age90plusUnits planningItem > 0),
          it_sellThrough := pl_sellThrough planningItem\<rparr>"

fun mergeInventory ::
  "StoreInventoryItem list \<Rightarrow> items_map \<Rightarrow> StoreInventoryItem list \<times> items_map" where
  "mergeInventory [] merged = ([], merged)"
| "mergeInventory (item # rest) merged =
     (case map_of merged (it_sku item) of
        Some planningItem \<Rightarrow>
          (case mergeInventory rest (AList.delete (it_sku item) merged) of
             (rest', merged') \<Rightarrow> (mergeItem item planningItem # rest', merged'))
      | None \<Rightarrow>
          (case mergeInventory rest merged of
             (rest', merged') \<Rightarrow> (item # rest', merged')))"

text \<open>The item pushed for a planning record that no live item took.\<close>

definition syntheticItem :: "PlanningItem \<Rightarrow> StoreInventoryItem" where
  "syntheticItem planningItem =
     \<lparr>it_sku = pl_sku planningItem,
      it_title = (if pl_title planningItem \<noteq> [] then pl_title planningItem else pl_sku planningItem),
      it_onHand = pl_available planningItem, it_reserved = pl_reserved planningItem,
      it_inbound = pl_inbound planningItem, it_sales7d = pl_sales7d planningItem,
      it_age90plus = (pl_age90plusUnits planningItem > 0), it_stranded = 0, it_suppressed = 0,
      it_sellThrough = pl_sellThrough planningItem, it_margin = 0\<rparr>"

definition fetchInventorySnapshot :: "env \<Rightarrow> StoreKey \<Rightarrow> server \<Rightarrow> StoreData \<times> server" where
  "fetchInventorySnapshot e store s =
     (if \<not> hasCredentials e store then (fallback s store, s)
      else
        let s1 = perform e (InventorySummaries store) s
        in (case inventory_rsp e (calls s1) of
              Inl error \<Rightarrow> (fallback s store, emit (InventoryFetchFailed store error) s1)
            | Inr payload \<Rightarrow>
                let inventorySummaries = (case payload of None \<Rightarrow> [] | Some xs \<Rightarrow> xs)
                in (case fetchInboundShipments e store s1 of
                      (shipments, s2) \<Rightarrow>
                        let inventory = map summaryItem inventorySummaries
                        in (case getPlanningCache s2 store of
                              Some planning \<Rightarrow>
                                (case mergeInventory inventory (pc_items planning) of
                                   (inventory', merged) \<Rightarrow>
                                     ((fallback s store)\<lparr>
                                        sd_inventory := inventory' @ map syntheticItem (map snd merged),
                                        sd_shipments := shipments,
                                        sd_agingRisk := pc_agingRisk planning\<rparr>, s2))
                            | None \<Rightarrow>
                                ((fallback s store)\<lparr>sd_inventory := inventory,
                                   sd_shipments := shipments\<rparr>, s2)))))"

section \<open>index.ts: the planning status query\<close>

text \<open>
  One entry of the answer of \<open>GET /api/reports/planning/status\<close>. A date is kept as its
  number of milliseconds (the handler prints it with \<open>toISOString\<close>); \<open>null\<close> is \<open>None\<close>.
\<close>

record status_row =
  st_store :: StoreKey
  st_cached :: bool
  st_cachedAt :: "rat option"
  st_cooldownUntil :: "rat option"

definition planningStatusOf :: "server \<Rightarrow> StoreKey \<Rightarrow> status_row" where
  "planningStatusOf s store =
     (let cached = planningCache s store;
          cooldownUntil = (case reportCooldownUntil s store of None \<Rightarrow> 0 | Some c \<Rightarrow> c)
      in \<lparr>st_store = store,
          st_cached = (cached \<noteq> None),
          st_cachedAt = (case cached of None \<Rightarrow> None | Some c \<Rightarrow> Some (pc_fetchedAt c)),
          st_cooldownUntil = (if cooldownUntil \<noteq> 0 then Some cooldownUntil else None)\<rparr>)"

definition planningStatus :: "server \<Rightarrow> status_row list" where
  "planningStatus s = map (planningStatusOf s) REPORT_STORES"

section \<open>Definitions used to state the properties\<close>

text \<open>
  The columns the specification counts as older than 90 days: the normalized name starts
  with \<open>inv-age-\<close> and names none of the buckets \<open>0-to-90\<close>, \<open>0-to-30\<close>, \<open>31-to-60\<close>,
  \<open>61-to-90\<close>. A name names a bucket when it contains the text of the bucket.
\<close>

definition age90_counted :: "string \<Rightarrow> bool" where
  "age90_counted key =
     (startsWith key ''inv-age-''
      \<and> \<not> (includesStr key ''0-to-90'' \<or> includesStr key ''0-to-30''
            \<or> includesStr key ''31-to-60'' \<or> includesStr key ''61-to-90''))"

text \<open>A row that is kept under the key \<open>k\<close>: its sku is \<open>k\<close> and is not empty.\<close>

definition has_sku :: "string \<Rightarrow> row \<Rightarrow> bool" where
  "has_sku k r = (k \<noteq> [] \<and> rowSku r = Some k)"

text \<open>The storage fees of a row and of a cached record: \<open>estimatedLtsf + estimatedStorage\<close>.\<close>

definition row_fees :: "row \<Rightarrow> rat" where
  "row_fees r = pl_estimatedLtsf (rowItem r) + pl_estimatedStorage (rowItem r)"

definition item_fees :: "PlanningItem \<Rightarrow> rat" where
  "item_fees it = pl_estimatedLtsf it + pl_estimatedStorage it"

definition thirty_days :: rat where
  "thirty_days = 30 * 24 * 60 * 60 * 1000"

subsection \<open>Sample reports\<close>

text \<open>Three rows: a shipped count of 0, no shipped count, and a shipped count of 4.\<close>

definition sales_rows :: "row list" where
  "sales_rows =
     [[(''sku'', ''A1''), (''units-shipped-t7'', ''0''), (''sales-shipped-last-7-days'', ''9'')],
      [(''sku'', ''B2''), (''sales-shipped-last-7-days'', ''9'')],
      [(''sku'', ''C3''), (''units-shipped-t7'', ''4''), (''sales-shipped-last-7-days'', ''9'')]]"

text \<open>A report of two lines for the same sku, with storage costs 1 and 2.\<close>

definition dup_report :: string where
  "dup_report =
     ''sku'' @ [CHR 0x09] @ ''estimated-storage-cost-next-month'' @ [CHR 0x0A]
     @ ''A1'' @ [CHR 0x09] @ ''1'' @ [CHR 0x0A]
     @ ''A1'' @ [CHR 0x09] @ ''2''"

subsection \<open>Sample states and environments\<close>

definition no_reviews :: ReviewStats where
  "no_reviews = \<lparr>today = 0, last7Days = 0, last30Days = 0, lastRunAt = None\<rparr>"

text \<open>The state of the process when it starts at time \<open>t\<close>.\<close>

definition startup :: "rat \<Rightarrow> server" where
  "startup t =
     \<lparr>planningCache = (\<lambda>_. None), reportCooldownUntil = (\<lambda>_. None),
      shipmentsCache = (\<lambda>_. None), planningReportHeadersLogged = False,
      reviewStats = no_reviews, clock = t, calls = [], console = []\<rparr>"

definition unavailable :: http_error where
  "unavailable = \<lparr>err_status = Some 503, err_retryAfter = Some 0, err_summary = ''503''\<rparr>"

text \<open>All credentials are set, every upstream call fails with 503 and takes no time.\<close>

definition env_down :: env where
  "env_down =
     \<lparr>lwaClientId = ''client'', lwaClientSecret = ''secret'', REFRESH_TOKEN_NA = ''na'',
      REFRESH_TOKEN_EU = ''eu'', REFRESH_TOKEN_AU = ''au'',
      latency = (\<lambda>_. 0),
      inventory_rsp = (\<lambda>_. Inl unavailable),
      shipments_rsp = (\<lambda>_. Inl unavailable),
      createReport_rsp = (\<lambda>_. Inl unavailable),
      listReports_rsp = (\<lambda>_. Inl unavailable),
      getReport_rsp = (\<lambda>_. Inl unavailable),
      getReportDocument_rsp = (\<lambda>_. Inl unavailable),
      downloadReport_rsp = (\<lambda>_. Inl unavailable),
      formatDate = (\<lambda>_. None),
      localeCompare = (\<lambda>a b. 0)\<rparr>"

definition one_item :: PlanningItem where
  "one_item =
     \<lparr>pl_sku = ''A1'', pl_title = ''Widget'', pl_available = 42, pl_inbound = 0, pl_reserved = 0,
      pl_sales7d = 5, pl_sellThrough = 1 / 2, pl_age90plusUnits = 3, pl_estimatedLtsf = 4,
      pl_estimatedStorage = 3\<rparr>"

definition entry_1000 :: PlanningCache where
  "entry_1000 = \<lparr>pc_fetchedAt = 1000, pc_items = [(''A1'', one_item)], pc_agingRisk = 7\<rparr>"

definition one_shipment :: StoreShipment where
  "one_shipment = \<lparr>sh_id = ''FBA1'', sh_status = ''SHIPPED'', sh_eta = ''TBD'', sh_units = 12\<rparr>"

definition shipments_1000 :: ShipmentsCache where
  "shipments_1000 = \<lparr>sc_fetchedAt = 1000, sc_shipments = [one_shipment]\<rparr>"

text \<open>
  The store US with a planning entry and a shipment list, both fetched at time 1000, and
  a cooldown that ended at time 2000; the state is read \<open>age\<close> milliseconds after
  the fetch.
\<close>

definition cached_at_age :: "rat \<Rightarrow> server" where
  "cached_at_age age =
     (startup (1000 + age))\<lparr>planningCache := (\<lambda>_. None)(US \<mapsto> entry_1000),
        reportCooldownUntil := (\<lambda>_. None)(US \<mapsto> 2000),
        shipmentsCache := (\<lambda>_. None)(US \<mapsto> shipments_1000)\<rparr>"

text \<open>Report creation is rejected with 429: the first rejection asks to retry after 300
  seconds, every later one after 120 seconds.\<close>

definition rate_limited :: "rat \<Rightarrow> http_error" where
  "rate_limited seconds =
     \<lparr>err_status = Some 429, err_retryAfter = Some seconds, err_summary = ''429''\<rparr>"

definition env_rate_limited :: env where
  "env_rate_limited =
     env_down\<lparr>createReport_rsp :=
       (\<lambda>cs. Inl (rate_limited (if length cs = 1 then 300 else 120)))\<rparr>"

definition blocked_once :: server where
  "blocked_once = snd (createReportOnce env_rate_limited US (startup 1000))"

definition blocked_twice :: server where
  "blocked_twice = snd (createReportOnce env_rate_limited US blocked_once)"

text \<open>A live summary that carries a seller SKU and a total quantity, nothing else.\<close>

definition live_summary :: "string \<Rightarrow> rat \<Rightarrow> summary" where
  "live_summary k n =
     \<lparr>s_inventoryDetails = None, s_totalQuantity = JNum n, s_totalAvailableQuantity = JUndefined,
      s_totalReservedQuantity = JUndefined, s_totalInboundQuantity = JUndefined,
      s_inboundWorkingQuantity = JUndefined, s_totalInboundWorkingQuantity = JUndefined,
      s_inboundShippedQuantity = JUndefined, s_totalInboundShippedQuantity = JUndefined,
      s_inboundReceivingQuantity = JUndefined, s_totalInboundReceivingQuantity = JUndefined,
      s_sellerSku = Some k, s_asin = None, s_productName = None, s_itemName = None,
      s_itemTitle = None, s_title = None\<rparr>"

text \<open>The live inventory call answers with the given summaries; the inventory of the
  snapshot then taken for US, one minute after the caches were filled.\<close>

definition env_live :: "summary list \<Rightarrow> env" where
  "env_live summaries = env_down\<lparr>inventory_rsp := (\<lambda>_. Inr (Some summaries))\<rparr>"

definition snapshot_inventory :: "summary list \<Rightarrow> StoreInventoryItem list" where
  "snapshot_inventory summaries =
     sd_inventory (fst (fetchInventorySnapshot (env_live summaries) US (cached_at_age 60000)))"

subsection \<open>Progress of a run\<close>

text \<open>From \<open>s\<close> to \<open>s'\<close> no call is taken back, the deadlines are the same, and the clock
  does not run backwards when no call takes negative time.\<close>

definition advances :: "env \<Rightarrow> server \<Rightarrow> server \<Rightarrow> bool" where
  "advances e s s' =
     (length (calls s) \<le> length (calls s')
      \<and> reportCooldownUntil s' = reportCooldownUntil s
      \<and> ((\<forall>cs. 0 \<le> latency e cs) \<longrightarrow> clock s \<le> clock s'))"

text \<open>No deadline is lost or moved back, no call is taken back, and the clock does not
  run backwards when no call takes negative time.\<close>

definition forward :: "env \<Rightarrow> server \<Rightarrow> server \<Rightarrow> bool" where
  "forward e s s' =
     (length (calls s) \<le> length (calls s')
      \<and> ((\<forall>cs. 0 \<le> latency e cs) \<longrightarrow>
            clock s \<le> clock s'
            \<and> (\<forall>st d. reportCooldownUntil s st = Some d \<longrightarrow>
                  (\<exists>d'. reportCooldownUntil s' st = Some d' \<and> d \<le> d'))))"

section \<open>Properties of the extractors\<close>

lemma includesStr_single: "includesStr v [c] \<longleftrightarrow> c \<in> set v"
  by (induction v) auto

lemma not_numeric_percent: "\<not> numeric_char (CHR ''%'')"
  by (simp add: numeric_char_def digit_of_def)

lemma filter_numeric_strip:
  "filter numeric_char (filter (\<lambda>c. c \<noteq> CHR ''%'') v) = filter numeric_char v"
  by (induction v) (auto simp: not_numeric_percent)

lemma Number_cleaned_Nil: "Number_cleaned [] = Some 0"
  by (simp add: Number_cleaned_def)

lemma parseNumber_strip_percent:
  "parseNumber (Some (filter (\<lambda>c. c \<noteq> CHR ''%'') v)) = parseNumber (Some v)"
proof (cases "filter (\<lambda>c. c \<noteq> CHR ''%'') v = []")
  case True
  then have "filter numeric_char v = []"
    using filter_numeric_strip [of v] by simp
  then show ?thesis using True
    by (simp add: parseNumber_def truthy_def Number_cleaned_Nil)
next
  case False
  then have "v \<noteq> []" by auto
  with False show ?thesis
    by (simp add: parseNumber_def truthy_def filter_numeric_strip del: filter_filter)
qed

text \<open>
  C7. For every raw field string: when it contains \<open>%\<close>, \<open>parsePercent\<close> is the number
  parsed from the string without its percent signs, divided by 100; otherwise it is the
  parsed number divided by 100 when that number is greater than 1, and the parsed number
  itself when not. So \<open>"12.5%"\<close>, \<open>"0.125"\<close> and \<open>"12.5"\<close> all give 0.125, and \<open>""\<close>
  gives 0.
\<close>

theorem parsePercent_cases:
  "parsePercent (Some v) =
     (if includesStr v ''%'' then parseNumber (Some (filter (\<lambda>c. c \<noteq> CHR ''%'') v)) / 100
      else if parseNumber (Some v) > 1 then parseNumber (Some v) / 100
      else parseNumber (Some v))
   \<and> parsePercent (Some ''12.5%'') = 125 / 1000
   \<and> parsePercent (Some ''0.125'') = 125 / 1000
   \<and> parsePercent (Some ''12.5'') = 125 / 1000
   \<and> parsePercent (Some '''') = 0"
proof -
  have general: "parsePercent (Some v) =
     (if includesStr v ''%'' then parseNumber (Some (filter (\<lambda>c. c \<noteq> CHR ''%'') v)) / 100
      else if parseNumber (Some v) > 1 then parseNumber (Some v) / 100
      else parseNumber (Some v))"
  proof (cases "v = []")
    case True
    then show ?thesis by (simp add: parsePercent_def parseNumber_def truthy_def)
  next
    case False
    then show ?thesis
      by (simp add: parsePercent_def truthy_def parseNumber_strip_percent Let_def)
  qed
  have e1: "parsePercent (Some ''12.5%'') = 125 / 1000" by code_simp
  have e2: "parsePercent (Some ''0.125'') = 125 / 1000" by code_simp
  have e3: "parsePercent (Some ''12.5'') = 125 / 1000" by code_simp
  have e4: "parsePercent (Some '''') = 0" by code_simp
  from general e1 e2 e3 e4 show ?thesis by blast
qed

theorem parsePercent_cases_witness:
  "parsePercent (Some ''50%'') = parseNumber (Some ''50'') / 100"
  using parsePercent_cases [of "''50%''"] by simp

lemma computeAge90Plus_loop_sum:
  "computeAge90Plus_loop r acc =
     acc + sum_list (map (\<lambda>kv. parseNumber (Some (snd kv)))
                       (filter (\<lambda>kv. age90_counted (fst kv)) r))"
  by (induction r acc rule: computeAge90Plus_loop.induct) (auto simp: age90_counted_def)

text \<open>
  C6. For every record, \<open>age90plusUnits\<close> is the sum of the parsed values of the columns
  whose name starts with \<open>inv-age-\<close> and names none of the buckets \<open>0-to-90\<close>, \<open>0-to-30\<close>,
  \<open>31-to-60\<close>, \<open>61-to-90\<close>. The record with \<open>inv-age-0-to-90-days = 5\<close>,
  \<open>inv-age-91-to-180-days = 7\<close> and \<open>inv-age-181-to-365-days = 3\<close> gives 10.
\<close>

theorem age90plusUnits_sum:
  "pl_age90plusUnits (rowItem r) =
     sum_list (map (\<lambda>kv. parseNumber (Some (snd kv)))
                 (filter (\<lambda>kv. age90_counted (fst kv)) r))
   \<and> computeAge90Plus [(''inv-age-0-to-90-days'', ''5''), (''inv-age-91-to-180-days'', ''7''),
        (''inv-age-181-to-365-days'', ''3'')] = 10"
proof -
  have "pl_age90plusUnits (rowItem r) = computeAge90Plus r"
    by (simp add: rowItem_def Let_def)
  moreover have "computeAge90Plus [(''inv-age-0-to-90-days'', ''5''),
      (''inv-age-91-to-180-days'', ''7''), (''inv-age-181-to-365-days'', ''3'')] = 10"
    by code_simp
  ultimately show ?thesis
    by (simp add: computeAge90Plus_def computeAge90Plus_loop_sum)
qed

section \<open>Properties of the row loop\<close>

lemma rowSku_Some: "\<exists>k. rowSku r = Some k"
  by (auto simp: rowSku_def or_str_def truthy_def split: option.splits)

lemma rowItem_sku: "rowSku r = Some (pl_sku (rowItem r))"
  using rowSku_Some [of r] by (auto simp: rowItem_def Let_def)

lemma set_update_subset: "set (AList.update k v al) \<subseteq> insert (k, v) (set al)"
  by (induction al) auto

lemma rowStep_entries:
  "(k, it) \<in> set (fst (rowStep acc r)) \<Longrightarrow>
     (k, it) \<in> set (fst acc) \<or> (truthy (rowSku r) \<and> it = rowItem r \<and> rowSku r = Some k)"
proof -
  assume a: "(k, it) \<in> set (fst (rowStep acc r))"
  obtain items agingRisk where acc: "acc = (items, agingRisk)" by (cases acc)
  show ?thesis
  proof (cases "truthy (rowSku r)")
    case False
    with a acc show ?thesis by (simp add: rowStep_def)
  next
    case True
    from a acc True have "(k, it) \<in> set (AList.update (pl_sku (rowItem r)) (rowItem r) items)"
      by (simp add: rowStep_def Let_def)
    then have "(k, it) = (pl_sku (rowItem r), rowItem r) \<or> (k, it) \<in> set items"
      using set_update_subset by fastforce
    with acc True rowItem_sku [of r] show ?thesis by auto
  qed
qed

lemma foldl_rowStep_entries:
  "(k, it) \<in> set (fst (foldl rowStep acc rows)) \<Longrightarrow>
     (k, it) \<in> set (fst acc)
     \<or> (\<exists>r \<in> set rows. truthy (rowSku r) \<and> it = rowItem r \<and> rowSku r = Some k)"
proof (induction rows arbitrary: acc)
  case Nil
  then show ?case by simp
next
  case (Cons r rows)
  from Cons.prems have "(k, it) \<in> set (fst (foldl rowStep (rowStep acc r) rows))" by simp
  from Cons.IH [OF this] rowStep_entries [of k it acc r] show ?case by auto
qed

lemma sales7d_rowItem:
  "pl_sales7d (rowItem r) =
     (if parseNumber (map_of r ''units-shipped-t7'') = 0
      then parseNumber (map_of r ''sales-shipped-last-7-days'')
      else parseNumber (map_of r ''units-shipped-t7''))"
  by (simp add: rowItem_def Let_def or_num_def)

text \<open>
  C8. Every record that the row loop leaves in the items map comes from a row of the
  report, and its \<open>sales7d\<close> is the parsed \<open>units-shipped-t7\<close> of that row unless that
  number is 0, in which case it is the parsed \<open>sales-shipped-last-7-days\<close>. In the
  sample, a shipped count of 0 and a missing shipped count both give the fallback 9, and
  a shipped count of 4 gives 4.
\<close>

theorem sales7d_fallback:
  "((k, it) \<in> set (fst (forEachRow rows)) \<longrightarrow>
      (\<exists>r \<in> set rows. rowSku r = Some k \<and> it = rowItem r \<and>
         pl_sales7d it =
           (if parseNumber (map_of r ''units-shipped-t7'') = 0
            then parseNumber (map_of r ''sales-shipped-last-7-days'')
            else parseNumber (map_of r ''units-shipped-t7''))))
   \<and> map (\<lambda>kv. (fst kv, pl_sales7d (snd kv))) (fst (forEachRow sales_rows))
       = [(''A1'', 9), (''B2'', 9), (''C3'', 4)]"
proof -
  have ex: "map (\<lambda>kv. (fst kv, pl_sales7d (snd kv))) (fst (forEachRow sales_rows))
       = [(''A1'', 9), (''B2'', 9), (''C3'', 4)]"
    by code_simp
  have "(k, it) \<in> set (fst (forEachRow rows)) \<Longrightarrow>
      (\<exists>r \<in> set rows. rowSku r = Some k \<and> it = rowItem r \<and>
         pl_sales7d it =
           (if parseNumber (map_of r ''units-shipped-t7'') = 0
            then parseNumber (map_of r ''sales-shipped-last-7-days'')
            else parseNumber (map_of r ''units-shipped-t7'')))"
  proof -
    assume "(k, it) \<in> set (fst (forEachRow rows))"
    then have "\<exists>r \<in> set rows. truthy (rowSku r) \<and> it = rowItem r \<and> rowSku r = Some k"
      using foldl_rowStep_entries [of k it "([], 0)" rows] by (simp add: forEachRow_def)
    then show ?thesis using sales7d_rowItem by blast
  qed
  with ex show ?thesis by blast
qed

theorem sales7d_fallback_witness:
  "(''A1'', rowItem (hd sales_rows)) \<in> set (fst (forEachRow sales_rows))
   \<and> parseNumber (map_of (hd sales_rows) ''units-shipped-t7'') = 0
   \<and> pl_sales7d (rowItem (hd sales_rows)) = 9"
proof -
  have m: "(''A1'', rowItem (hd sales_rows)) \<in> set (fst (forEachRow sales_rows))"
    by code_simp
  have z: "parseNumber (map_of (hd sales_rows) ''units-shipped-t7'') = 0"
    by code_simp
  have f: "parseNumber (map_of (hd sales_rows) ''sales-shipped-last-7-days'') = 9"
    by code_simp
  from sales7d_fallback [of "''A1''" "rowItem (hd sales_rows)" sales_rows] m
  obtain r where "rowItem (hd sales_rows) = rowItem r"
    and "pl_sales7d (rowItem (hd sales_rows)) =
           (if parseNumber (map_of r ''units-shipped-t7'') = 0
            then parseNumber (map_of r ''sales-shipped-last-7-days'')
            else parseNumber (map_of r ''units-shipped-t7''))"
    by blast
  then have "pl_sales7d (rowItem (hd sales_rows)) = pl_sales7d (rowItem (hd sales_rows))"
    by simp
  with m z f sales7d_rowItem [of "hd sales_rows"] show ?thesis by simp
qed

lemma foldl_rowStep_agingRisk:
  "snd (foldl rowStep acc rows) =
     snd acc + sum_list (map row_fees (filter (\<lambda>r. truthy (rowSku r)) rows))"
proof (induction rows arbitrary: acc)
  case Nil
  then show ?case by simp
next
  case (Cons r rows)
  obtain items agingRisk where acc: "acc = (items, agingRisk)" by (cases acc)
  have "snd (rowStep acc r) = snd acc + (if truthy (rowSku r) then row_fees r else 0)"
    by (simp add: acc rowStep_def row_fees_def Let_def)
  with Cons.IH [of "rowStep acc r"] show ?case by simp
qed

lemma find_snoc:
  "find P (xs @ [x]) =
     (case find P xs of None \<Rightarrow> (if P x then Some x else None) | Some y \<Rightarrow> Some y)"
  by (induction xs) auto

lemma rowStep_lookup:
  "map_of (fst (rowStep acc r)) k =
     (if has_sku k r then Some (rowItem r) else map_of (fst acc) k)"
proof -
  obtain items agingRisk where acc: "acc = (items, agingRisk)" by (cases acc)
  show ?thesis
    using rowItem_sku [of r]
    by (auto simp: acc rowStep_def Let_def update_conv' has_sku_def truthy_def)
qed

lemma foldl_rowStep_lookup:
  "map_of (fst (foldl rowStep acc rows)) k =
     (case find (has_sku k) (rev rows) of
        None \<Rightarrow> map_of (fst acc) k
      | Some r \<Rightarrow> Some (rowItem r))"
proof (induction rows arbitrary: acc)
  case Nil
  then show ?case by simp
next
  case (Cons r rows)
  show ?case
    by (simp add: Cons.IH [of "rowStep acc r"] find_snoc rowStep_lookup split: option.splits)
qed

lemma rowStep_distinct:
  "distinct (map fst (fst acc)) \<Longrightarrow> distinct (map fst (fst (rowStep acc r)))"
  by (cases acc) (simp add: rowStep_def Let_def distinct_update)

lemma foldl_rowStep_distinct:
  "distinct (map fst (fst acc)) \<Longrightarrow> distinct (map fst (fst (foldl rowStep acc rows)))"
  by (induction rows arbitrary: acc) (simp_all add: rowStep_distinct)

lemma cachePlanningReport_entry:
  "planningCache (cachePlanningReport store content s) store =
     Some \<lparr>pc_fetchedAt = clock s,
           pc_items = fst (forEachRow (parseTabDelimited content)),
           pc_agingRisk = snd (forEachRow (parseTabDelimited content))\<rparr>"
  by (simp add: cachePlanningReport_def Let_def emit_def split: prod.splits)

text \<open>
  C9. The aging-risk total of the row loop is the sum of the fees of every row with a
  non-empty sku, repeated skus included, while the items map holds, under each sku, the
  record of the last such row only, each sku once. \<open>cachePlanningReport\<close> stores that
  map and that total. For the report of two lines with the sku \<open>A1\<close> and storage costs 1
  and 2, the cached total is 3 and exceeds the fees of the cached records, which are 2.
\<close>

theorem agingRisk_counts_duplicates:
  "snd (forEachRow rows) = sum_list (map row_fees (filter (\<lambda>r. truthy (rowSku r)) rows))
   \<and> map_of (fst (forEachRow rows)) k =
       (case find (has_sku k) (rev rows) of None \<Rightarrow> None | Some r \<Rightarrow> Some (rowItem r))
   \<and> distinct (map fst (fst (forEachRow rows)))
   \<and> planningCache (cachePlanningReport store content s) store =
       Some \<lparr>pc_fetchedAt = clock s,
             pc_items = fst (forEachRow (parseTabDelimited content)),
             pc_agingRisk = snd (forEachRow (parseTabDelimited content))\<rparr>
   \<and> map (\<lambda>r. the (rowSku r)) (parseTabDelimited dup_report) = [''A1'', ''A1'']
   \<and> pc_agingRisk (the (planningCache (cachePlanningReport store dup_report s) store)) = 3
   \<and> sum_list (map (\<lambda>kv. item_fees (snd kv))
        (pc_items (the (planningCache (cachePlanningReport store dup_report s) store)))) = 2
   \<and> pc_agingRisk (the (planningCache (cachePlanningReport store dup_report s) store))
       > sum_list (map (\<lambda>kv. item_fees (snd kv))
           (pc_items (the (planningCache (cachePlanningReport store dup_report s) store))))"
proof -
  have a: "snd (forEachRow rows) = sum_list (map row_fees (filter (\<lambda>r. truthy (rowSku r)) rows))"
    by (simp add: forEachRow_def foldl_rowStep_agingRisk)
  have b: "map_of (fst (forEachRow rows)) k =
       (case find (has_sku k) (rev rows) of None \<Rightarrow> None | Some r \<Rightarrow> Some (rowItem r))"
    by (simp add: forEachRow_def foldl_rowStep_lookup split: option.splits)
  have c: "distinct (map fst (fst (forEachRow rows)))"
    by (simp add: forEachRow_def foldl_rowStep_distinct)
  have d: "map (\<lambda>r. the (rowSku r)) (parseTabDelimited dup_report) = [''A1'', ''A1'']"
    by code_simp
  have e: "snd (forEachRow (parseTabDelimited dup_report)) = 3"
    by code_simp
  have f: "sum_list (map (\<lambda>kv. item_fees (snd kv))
             (fst (forEachRow (parseTabDelimited dup_report)))) = 2"
    by code_simp
  have g: "pc_agingRisk (the (planningCache (cachePlanningReport store dup_report s) store)) = 3"
    by (simp add: cachePlanningReport_entry e)
  have h: "sum_list (map (\<lambda>kv. item_fees (snd kv))
        (pc_items (the (planningCache (cachePlanningReport store dup_report s) store)))) = 2"
    by (simp add: cachePlanningReport_entry f)
  have i: "pc_agingRisk (the (planningCache (cachePlanningReport store dup_report s) store))
       > sum_list (map (\<lambda>kv. item_fees (snd kv))
           (pc_items (the (planningCache (cachePlanningReport store dup_report s) store))))"
    by (simp add: g h)
  from a b c d g h i cachePlanningReport_entry show ?thesis by blast
qed

section \<open>Properties of the caches\<close>

text \<open>
  C3, with the boundary as the code has it. For the planning cache and the shipment
  cache alike, a stored entry is returned by a read at time \<open>now\<close> exactly when
  \<open>now - fetchedAt \<le> ttl\<close> (the age \<open>ttl\<close> itself still counts as fresh) and is treated as
  absent when \<open>now - fetchedAt > ttl\<close>. A read is a function of the state and leaves the
  stale entry where it is; a later set (\<open>cachePlanningReport\<close>, or a successful shipment
  fetch after a miss) replaces whatever entry there was and stamps the time of the set.
\<close>

theorem ttl_cache_inclusive:
  "(planningCache s store = Some c \<longrightarrow>
      getPlanningCache (s\<lparr>clock := now\<rparr>) store =
        (if now - pc_fetchedAt c \<le> REPORT_CACHE_TTL_MS then Some c else None))
   \<and> (shipmentsCache s store = Some d \<longrightarrow>
      getShipmentsCache (s\<lparr>clock := now\<rparr>) store =
        (if now - sc_fetchedAt d \<le> SHIPMENTS_CACHE_TTL_MS then Some d else None))
   \<and> getPlanningCache ((cachePlanningReport store content s)\<lparr>clock := now\<rparr>) store =
        (if now - clock s \<le> REPORT_CACHE_TTL_MS
         then Some \<lparr>pc_fetchedAt = clock s,
                    pc_items = fst (forEachRow (parseTabDelimited content)),
                    pc_agingRisk = snd (forEachRow (parseTabDelimited content))\<rparr>
         else None)
   \<and> (hasCredentials e store \<and> getShipmentsCache s store = None
       \<and> shipments_rsp e (calls s @ [InboundShipments store (clock s - thirty_days)]) = Inr payload
       \<longrightarrow>
      getShipmentsCache ((snd (fetchInboundShipments e store s))\<lparr>clock := now\<rparr>) store =
        (if now - (clock s + latency e (calls s @ [InboundShipments store (clock s - thirty_days)]))
              \<le> SHIPMENTS_CACHE_TTL_MS
         then Some \<lparr>sc_fetchedAt =
                      clock s + latency e (calls s @ [InboundShipments store (clock s - thirty_days)]),
                    sc_shipments = fst (fetchInboundShipments e store s)\<rparr>
         else None))"
  using cachePlanningReport_entry [of store content s]
  by (simp add: getPlanningCache_def getShipmentsCache_def fetchInboundShipments_def
      perform_def Let_def thirty_days_def)

theorem ttl_cache_inclusive_witness:
  "getPlanningCache ((cached_at_age 0)\<lparr>clock := 1000 + REPORT_CACHE_TTL_MS\<rparr>) US = Some entry_1000
   \<and> getPlanningCache ((cached_at_age 0)\<lparr>clock := 1001 + REPORT_CACHE_TTL_MS\<rparr>) US = None"
proof -
  have c: "planningCache (cached_at_age 0) US = Some entry_1000"
    by (simp add: cached_at_age_def)
  show ?thesis
    using ttl_cache_inclusive [of "cached_at_age 0" US entry_1000 "1000 + REPORT_CACHE_TTL_MS"]
      ttl_cache_inclusive [of "cached_at_age 0" US entry_1000 "1001 + REPORT_CACHE_TTL_MS"] c
    by (simp add: entry_1000_def)
qed

text \<open>An entry whose age is exactly the TTL is still returned, although its age is not
  below the TTL.\<close>

theorem ttl_boundary_counterexample:
  "getPlanningCache (cached_at_age REPORT_CACHE_TTL_MS) US = Some entry_1000
   \<and> \<not> (clock (cached_at_age REPORT_CACHE_TTL_MS) - pc_fetchedAt entry_1000 < REPORT_CACHE_TTL_MS)"
  by (simp add: getPlanningCache_def cached_at_age_def startup_def entry_1000_def)

section \<open>Properties of the orchestrator\<close>

text \<open>
  C5. When the store has a planning entry younger than the 6-hour TTL,
  \<open>refreshPlanningReport\<close> returns the state it was given: no upstream call is added to
  the calls made, and the cache entry, its \<open>fetchedAt\<close> included, is the same.
\<close>

theorem refresh_short_circuit:
  "planningCache s store = Some c \<Longrightarrow> clock s - pc_fetchedAt c < REPORT_CACHE_TTL_MS \<Longrightarrow>
     refreshPlanningReport e store s = s
     \<and> calls (refreshPlanningReport e store s) = calls s
     \<and> planningCache (refreshPlanningReport e store s) store = Some c"
  by (simp add: refreshPlanningReport_def getPlanningCache_def)

theorem refresh_short_circuit_witness:
  "hasCredentials env_down US
   \<and> refreshPlanningReport env_down US (cached_at_age 60000) = cached_at_age 60000
   \<and> calls (refreshPlanningReport env_down US (cached_at_age 60000)) = []
   \<and> planningCache (refreshPlanningReport env_down US (cached_at_age 60000)) US = Some entry_1000"
proof -
  have c: "planningCache (cached_at_age 60000) US = Some entry_1000"
    by (simp add: cached_at_age_def)
  have f: "clock (cached_at_age 60000) - pc_fetchedAt entry_1000 < REPORT_CACHE_TTL_MS"
    by (simp add: cached_at_age_def startup_def entry_1000_def REPORT_CACHE_TTL_MS_def)
  have h: "hasCredentials env_down US"
    by (simp add: hasCredentials_def env_down_def refreshToken_def)
  have k: "calls (cached_at_age 60000) = []"
    by (simp add: cached_at_age_def startup_def)
  from refresh_short_circuit [OF c f, of env_down] h k c show ?thesis by simp
qed

lemma backoff_pos: "0 < backoff error"
  by (simp add: backoff_def REPORT_COOLDOWN_MS_def split: option.splits)

lemma createReportOnce_rate_limited:
  "createReport_rsp e (calls s @ [CreateReport store]) = Inl error \<Longrightarrow>
   err_status error = Some 429 \<Longrightarrow>
     reportCooldownUntil (snd (createReportOnce e store s)) store =
       Some (clock s + latency e (calls s @ [CreateReport store]) + backoff error)"
  by (simp add: createReportOnce_def createReport_def perform_def emit_def Let_def)

text \<open>
  C1, as the code has it. When report creation is rejected with 429,
  \<open>createReportOnce\<close> sets the deadline of the store to the time of the rejection plus the
  backoff (a positive duration), whatever deadline was stored before: the last write
  stands. The new deadline is the maximum of the old and the new one when the old
  deadline had passed at the call, which is the case behind the cooldown gate of
  \<open>refreshPlanningReport\<close>.
\<close>

theorem cooldown_overwritten:
  "createReport_rsp e (calls s @ [CreateReport store]) = Inl error \<Longrightarrow>
   err_status error = Some 429 \<Longrightarrow>
     reportCooldownUntil (snd (createReportOnce e store s)) store =
       Some (clock s + latency e (calls s @ [CreateReport store]) + backoff error)
     \<and> 0 < backoff error
     \<and> (\<forall>old. reportCooldownUntil s store = Some old \<and> old \<le> clock s
               \<and> 0 \<le> latency e (calls s @ [CreateReport store]) \<longrightarrow>
           reportCooldownUntil (snd (createReportOnce e store s)) store =
             Some (max old (clock s + latency e (calls s @ [CreateReport store]) + backoff error)))"
proof -
  assume r: "createReport_rsp e (calls s @ [CreateReport store]) = Inl error"
    and st: "err_status error = Some 429"
  have v: "reportCooldownUntil (snd (createReportOnce e store s)) store =
       Some (clock s + latency e (calls s @ [CreateReport store]) + backoff error)"
    using r st by (rule createReportOnce_rate_limited)
  have p: "0 < backoff error" by (rule backoff_pos)
  show ?thesis
  proof (intro conjI allI impI)
    show "reportCooldownUntil (snd (createReportOnce e store s)) store =
       Some (clock s + latency e (calls s @ [CreateReport store]) + backoff error)" by (rule v)
    show "0 < backoff error" by (rule p)
  next
    fix old
    assume "reportCooldownUntil s store = Some old \<and> old \<le> clock s
               \<and> 0 \<le> latency e (calls s @ [CreateReport store])"
    then have "old \<le> clock s + latency e (calls s @ [CreateReport store]) + backoff error"
      using p by linarith
    then show "reportCooldownUntil (snd (createReportOnce e store s)) store =
             Some (max old (clock s + latency e (calls s @ [CreateReport store]) + backoff error))"
      using v by (simp add: max_def)
  qed
qed

lemma blocked_once_facts:
  "reportCooldownUntil blocked_once US = Some 301000 \<and> clock blocked_once = 1000
   \<and> calls blocked_once = [CreateReport US]"
  by (simp add: blocked_once_def createReportOnce_def createReport_def perform_def emit_def
      Let_def env_rate_limited_def env_down_def rate_limited_def startup_def backoff_def)

theorem cooldown_overwritten_witness:
  "reportCooldownUntil blocked_once US = Some 301000
   \<and> reportCooldownUntil blocked_twice US = Some 121000"
proof -
  have r: "createReport_rsp env_rate_limited (calls blocked_once @ [CreateReport US])
             = Inl (rate_limited 120)"
    by (simp add: blocked_once_facts env_rate_limited_def)
  have st: "err_status (rate_limited 120) = Some 429" by (simp add: rate_limited_def)
  have l: "latency env_rate_limited (calls blocked_once @ [CreateReport US]) = 0"
    by (simp add: env_rate_limited_def env_down_def)
  have b: "backoff (rate_limited 120) = 120000" by (simp add: backoff_def rate_limited_def)
  from cooldown_overwritten [OF r st] l b blocked_once_facts show ?thesis
    by (simp add: blocked_twice_def)
qed

text \<open>A region blocked for 5 minutes at time 1000 and then, at the same time, for 2
  minutes: the deadline in effect is the one of the 2 minutes, not the maximum.\<close>

theorem cooldown_max_counterexample:
  "reportCooldownUntil blocked_once US = Some (1000 + 5 * 60 * 1000)
   \<and> reportCooldownUntil blocked_twice US = Some (1000 + 2 * 60 * 1000)
   \<and> reportCooldownUntil blocked_twice US
       \<noteq> Some (max (1000 + 5 * 60 * 1000) (1000 + 2 * 60 * 1000))"
  by (simp add: blocked_twice_def blocked_once_def createReportOnce_def createReport_def
      perform_def emit_def Let_def env_rate_limited_def env_down_def rate_limited_def
      startup_def backoff_def)

section \<open>Properties of the status query\<close>

text \<open>
  C10. The status query lists the report stores and reads the two maps as they are: for a
  stored planning entry it reports \<open>cached = true\<close> and the entry's \<open>fetchedAt\<close>, also when
  the entry is older than the TTL and \<open>getPlanningCache\<close> gives nothing; a stored deadline
  (other than the number 0, which the handler reads as no cooldown) is reported also
  when it has passed; the answer does not depend on the clock. The deadline that
  \<open>createReportOnce\<close> stores at a clock that is not negative is reported.
\<close>

theorem status_ignores_freshness:
  "map st_store (planningStatus s) = REPORT_STORES
   \<and> planningStatus (s\<lparr>clock := now\<rparr>) = planningStatus s
   \<and> (\<forall>row \<in> set (planningStatus s).
        (\<forall>c. planningCache s (st_store row) = Some c \<longrightarrow>
           st_cached row \<and> st_cachedAt row = Some (pc_fetchedAt c)
           \<and> (clock s - pc_fetchedAt c > REPORT_CACHE_TTL_MS \<longrightarrow>
                getPlanningCache s (st_store row) = None))
        \<and> (\<forall>d. reportCooldownUntil s (st_store row) = Some d \<and> d \<noteq> 0 \<longrightarrow>
             st_cooldownUntil row = Some d))
   \<and> (createReport_rsp e (calls s @ [CreateReport US]) = Inl error \<and> err_status error = Some 429
       \<and> 0 \<le> clock s \<and> 0 \<le> latency e (calls s @ [CreateReport US]) \<longrightarrow>
        map st_cooldownUntil (planningStatus (snd (createReportOnce e US s))) =
          [Some (clock s + latency e (calls s @ [CreateReport US]) + backoff error)])"
proof -
  have a: "map st_store (planningStatus s) = REPORT_STORES"
    by (simp add: planningStatus_def planningStatusOf_def REPORT_STORES_def Let_def)
  have b: "planningStatus (s\<lparr>clock := now\<rparr>) = planningStatus s"
    by (simp add: planningStatus_def planningStatusOf_def)
  have c: "\<forall>row \<in> set (planningStatus s).
        (\<forall>c. planningCache s (st_store row) = Some c \<longrightarrow>
           st_cached row \<and> st_cachedAt row = Some (pc_fetchedAt c)
           \<and> (clock s - pc_fetchedAt c > REPORT_CACHE_TTL_MS \<longrightarrow>
                getPlanningCache s (st_store row) = None))
        \<and> (\<forall>d. reportCooldownUntil s (st_store row) = Some d \<and> d \<noteq> 0 \<longrightarrow>
             st_cooldownUntil row = Some d)"
    by (simp add: planningStatus_def planningStatusOf_def REPORT_STORES_def
        getPlanningCache_def Let_def)
  have d: "createReport_rsp e (calls s @ [CreateReport US]) = Inl error \<and> err_status error = Some 429
       \<and> 0 \<le> clock s \<and> 0 \<le> latency e (calls s @ [CreateReport US]) \<longrightarrow>
        map st_cooldownUntil (planningStatus (snd (createReportOnce e US s))) =
          [Some (clock s + latency e (calls s @ [CreateReport US]) + backoff error)]"
  proof
    assume h: "createReport_rsp e (calls s @ [CreateReport US]) = Inl error \<and> err_status error = Some 429
       \<and> 0 \<le> clock s \<and> 0 \<le> latency e (calls s @ [CreateReport US])"
    then have v: "reportCooldownUntil (snd (createReportOnce e US s)) US =
        Some (clock s + latency e (calls s @ [CreateReport US]) + backoff error)"
      by (simp add: createReportOnce_rate_limited)
    have "clock s + latency e (calls s @ [CreateReport US]) + backoff error \<noteq> 0"
      using h backoff_pos [of error] by linarith
    with v show "map st_cooldownUntil (planningStatus (snd (createReportOnce e US s))) =
          [Some (clock s + latency e (calls s @ [CreateReport US]) + backoff error)]"
      by (simp add: planningStatus_def planningStatusOf_def REPORT_STORES_def Let_def)
  qed
  from a b c d show ?thesis by blast
qed

theorem status_ignores_freshness_witness:
  "getPlanningCache (cached_at_age (7 * 60 * 60 * 1000)) US = None
   \<and> 2000 < clock (cached_at_age (7 * 60 * 60 * 1000))
   \<and> planningStatus (cached_at_age (7 * 60 * 60 * 1000)) =
       [\<lparr>st_store = US, st_cached = True, st_cachedAt = Some 1000, st_cooldownUntil = Some 2000\<rparr>]"
  using status_ignores_freshness [of "cached_at_age (7 * 60 * 60 * 1000)"]
  by (simp add: planningStatus_def planningStatusOf_def REPORT_STORES_def cached_at_age_def
      startup_def entry_1000_def getPlanningCache_def REPORT_CACHE_TTL_MS_def Let_def)

section \<open>Properties of the snapshot\<close>

text \<open>
  C2, as the code has it. When the live inventory call of a snapshot fails, the failure
  is written to the console and the caller gets the fallback of the store: no inventory,
  no shipments, aging risk 0. The planning cache and the shipment cache stay as they
  were, and are not served. When the shipment call fails after a cache miss, the failure
  is written to the console, the shipment list of this cycle is empty and the shipment
  cache stays as it was.
\<close>

theorem failed_fetch_serves_fallback:
  "(hasCredentials e store \<and> inventory_rsp e (calls s @ [InventorySummaries store]) = Inl error \<longrightarrow>
      fetchInventorySnapshot e store s =
        (fallback s store,
         emit (InventoryFetchFailed store error) (perform e (InventorySummaries store) s))
      \<and> sd_inventory (fst (fetchInventorySnapshot e store s)) = []
      \<and> sd_shipments (fst (fetchInventorySnapshot e store s)) = []
      \<and> sd_agingRisk (fst (fetchInventorySnapshot e store s)) = 0
      \<and> console (snd (fetchInventorySnapshot e store s)) =
          console s @ [InventoryFetchFailed store error]
      \<and> planningCache (snd (fetchInventorySnapshot e store s)) = planningCache s
      \<and> shipmentsCache (snd (fetchInventorySnapshot e store s)) = shipmentsCache s)
   \<and> (hasCredentials e store \<and> getShipmentsCache s store = None
       \<and> shipments_rsp e (calls s @ [InboundShipments store (clock s - thirty_days)]) = Inl error
       \<longrightarrow>
      fst (fetchInboundShipments e store s) = []
      \<and> console (snd (fetchInboundShipments e store s)) =
          console s @ [ShipmentsFetchFailed store error]
      \<and> shipmentsCache (snd (fetchInboundShipments e store s)) = shipmentsCache s)"
  by (simp add: fetchInventorySnapshot_def fetchInboundShipments_def perform_def emit_def Let_def
      fallback_def thirty_days_def)

theorem failed_fetch_serves_fallback_witness:
  "fetchInventorySnapshot env_down US (cached_at_age 60000) =
     (fallback (cached_at_age 60000) US,
      emit (InventoryFetchFailed US unavailable)
        (perform env_down (InventorySummaries US) (cached_at_age 60000)))
   \<and> planningCache (snd (fetchInventorySnapshot env_down US (cached_at_age 60000))) US
       = Some entry_1000
   \<and> fst (fetchInboundShipments env_down US (cached_at_age (10 * 60 * 1000))) = []"
proof -
  have h: "hasCredentials env_down US"
    by (simp add: hasCredentials_def env_down_def refreshToken_def)
  have r: "inventory_rsp env_down (calls (cached_at_age 60000) @ [InventorySummaries US])
             = Inl unavailable"
    by (simp add: env_down_def)
  have p: "planningCache (cached_at_age 60000) US = Some entry_1000"
    by (simp add: cached_at_age_def)
  have g: "getShipmentsCache (cached_at_age (10 * 60 * 1000)) US = None"
    by (simp add: getShipmentsCache_def cached_at_age_def startup_def shipments_1000_def
        SHIPMENTS_CACHE_TTL_MS_def)
  have q: "shipments_rsp env_down (calls (cached_at_age (10 * 60 * 1000)) @
      [InboundShipments US (clock (cached_at_age (10 * 60 * 1000)) - thirty_days)]) = Inl unavailable"
    by (simp add: env_down_def)
  from failed_fetch_serves_fallback [of env_down US "cached_at_age 60000" unavailable]
    failed_fetch_serves_fallback [of env_down US "cached_at_age (10 * 60 * 1000)" unavailable]
    h r p g q
  show ?thesis by (simp add: emit_def perform_def)
qed

text \<open>One minute after the caches of US were filled the live call fails: the planning
  entry (one record, aging risk 7) and the shipment list (one shipment) are both fresh,
  and the snapshot has no inventory, aging risk 0 and no shipments.\<close>

theorem failed_fetch_counterexample:
  "hasCredentials env_down US
   \<and> inventory_rsp env_down (calls (cached_at_age 60000) @ [InventorySummaries US]) = Inl unavailable
   \<and> getPlanningCache (cached_at_age 60000) US = Some entry_1000
   \<and> pc_items entry_1000 = [(''A1'', one_item)] \<and> pc_agingRisk entry_1000 = 7
   \<and> getShipmentsCache (cached_at_age 60000) US = Some shipments_1000
   \<and> sc_shipments shipments_1000 = [one_shipment]
   \<and> sd_inventory (fst (fetchInventorySnapshot env_down US (cached_at_age 60000))) = []
   \<and> sd_agingRisk (fst (fetchInventorySnapshot env_down US (cached_at_age 60000))) = 0
   \<and> sd_shipments (fst (fetchInventorySnapshot env_down US (cached_at_age 60000))) = []"
  by (simp add: fetchInventorySnapshot_def perform_def emit_def Let_def fallback_def
      env_down_def hasCredentials_def refreshToken_def cached_at_age_def startup_def
      getPlanningCache_def getShipmentsCache_def entry_1000_def shipments_1000_def
      REPORT_CACHE_TTL_MS_def SHIPMENTS_CACHE_TTL_MS_def)

lemma fst_mergeInventory_Cons:
  "fst (mergeInventory (item # rest) merged) =
     (case map_of merged (it_sku item) of
        Some p \<Rightarrow> mergeItem item p # fst (mergeInventory rest (AList.delete (it_sku item) merged))
      | None \<Rightarrow> item # fst (mergeInventory rest merged))"
  by (simp split: option.splits prod.splits)

lemma mergeInventory_length: "length (fst (mergeInventory inventory merged)) = length inventory"
proof (induction inventory arbitrary: merged)
  case Nil
  then show ?case by simp
next
  case (Cons item rest)
  then show ?case
    by (simp add: fst_mergeInventory_Cons del: mergeInventory.simps split: option.splits)
qed

lemma mergeInventory_first:
  "i < length inventory \<Longrightarrow> it_sku (inventory ! i) \<notin> it_sku ` set (take i inventory) \<Longrightarrow>
     fst (mergeInventory inventory merged) ! i =
       (case map_of merged (it_sku (inventory ! i)) of
          Some p \<Rightarrow> mergeItem (inventory ! i) p
        | None \<Rightarrow> inventory ! i)"
proof (induction inventory arbitrary: merged i)
  case Nil
  then show ?case by simp
next
  case (Cons item rest)
  show ?case
  proof (cases i)
    case 0
    then show ?thesis
      by (simp add: fst_mergeInventory_Cons del: mergeInventory.simps split: option.splits)
  next
    case (Suc j)
    with Cons.prems have j: "j < length rest"
      and ne: "it_sku (rest ! j) \<noteq> it_sku item"
      and fresh: "it_sku (rest ! j) \<notin> it_sku ` set (take j rest)"
      by auto
    have look: "map_of (AList.delete (it_sku item) merged) (it_sku (rest ! j))
                  = map_of merged (it_sku (rest ! j))"
      using ne by (simp add: delete_conv')
    from Cons.IH [OF j fresh, of merged] Cons.IH [OF j fresh, of "AList.delete (it_sku item) merged"]
      look Suc
    show ?thesis
      by (simp add: fst_mergeInventory_Cons del: mergeInventory.simps split: option.splits)
  qed
qed

lemmas snapshot_eval =
  snapshot_inventory_def fetchInventorySnapshot_def fetchInboundShipments_def
  perform_def emit_def Let_def fallback_def env_live_def
  env_down_def hasCredentials_def refreshToken_def cached_at_age_def startup_def
  getPlanningCache_def getShipmentsCache_def entry_1000_def shipments_1000_def
  REPORT_CACHE_TTL_MS_def SHIPMENTS_CACHE_TTL_MS_def live_summary_def summaryItem_def
  no_details_def coalesce_def mergeItem_def one_item_def

text \<open>
  C4, for the live items the merge reaches with the planning record still in hand. A
  live item whose sku has a record in the planning items, and whose sku no earlier live
  item has, is merged with that record: the title is the planning title unless that is
  empty; \<open>onHand\<close>, \<open>reserved\<close> and \<open>inbound\<close> are the planning values only where the live
  value is 0; \<open>sales7d\<close>, \<open>age90plus\<close> (true iff \<open>age90plusUnits > 0\<close>) and \<open>sellThrough\<close> are
  the planning values. In the snapshot of US, a live \<open>onHand\<close> of 0 merged with
  \<open>available = 42\<close> gives 42, and a live \<open>onHand\<close> of 10 stays 10.
\<close>

theorem merge_first_match:
  "(i < length inventory \<and> map_of planningItems (it_sku (inventory ! i)) = Some p
      \<and> it_sku (inventory ! i) \<notin> it_sku ` set (take i inventory) \<longrightarrow>
     (let item = inventory ! i; m = fst (mergeInventory inventory planningItems) ! i
      in it_sku m = it_sku item
         \<and> it_title m = (if pl_title p \<noteq> [] then pl_title p else it_title item)
         \<and> it_onHand m = (if it_onHand item = 0 then pl_available p else it_onHand item)
         \<and> it_reserved m = (if it_reserved item = 0 then pl_reserved p else it_reserved item)
         \<and> it_inbound m = (if it_inbound item = 0 then pl_inbound p else it_inbound item)
         \<and> it_sales7d m = pl_sales7d p
         \<and> it_age90plus m = (pl_age90plusUnits p > 0)
         \<and> it_sellThrough m = pl_sellThrough p))
   \<and> map it_onHand (snapshot_inventory [live_summary ''A1'' 0]) = [42]
   \<and> map it_onHand (snapshot_inventory [live_summary ''A1'' 10]) = [10]"
proof -
  have e1: "map it_onHand (snapshot_inventory [live_summary ''A1'' 0]) = [42]"
    by (simp add: snapshot_eval)
  have e2: "map it_onHand (snapshot_inventory [live_summary ''A1'' 10]) = [10]"
    by (simp add: snapshot_eval)
  have g: "i < length inventory \<and> map_of planningItems (it_sku (inventory ! i)) = Some p
      \<and> it_sku (inventory ! i) \<notin> it_sku ` set (take i inventory) \<longrightarrow>
     (let item = inventory ! i; m = fst (mergeInventory inventory planningItems) ! i
      in it_sku m = it_sku item
         \<and> it_title m = (if pl_title p \<noteq> [] then pl_title p else it_title item)
         \<and> it_onHand m = (if it_onHand item = 0 then pl_available p else it_onHand item)
         \<and> it_reserved m = (if it_reserved item = 0 then pl_reserved p else it_reserved item)
         \<and> it_inbound m = (if it_inbound item = 0 then pl_inbound p else it_inbound item)
         \<and> it_sales7d m = pl_sales7d p
         \<and> it_age90plus m = (pl_age90plusUnits p > 0)
         \<and> it_sellThrough m = pl_sellThrough p)"
  proof
    assume a: "i < length inventory \<and> map_of planningItems (it_sku (inventory ! i)) = Some p
      \<and> it_sku (inventory ! i) \<notin> it_sku ` set (take i inventory)"
    then have "fst (mergeInventory inventory planningItems) ! i = mergeItem (inventory ! i) p"
      using mergeInventory_first [of i inventory planningItems] by simp
    then show "(let item = inventory ! i; m = fst (mergeInventory inventory planningItems) ! i
      in it_sku m = it_sku item
         \<and> it_title m = (if pl_title p \<noteq> [] then pl_title p else it_title item)
         \<and> it_onHand m = (if it_onHand item = 0 then pl_available p else it_onHand item)
         \<and> it_reserved m = (if it_reserved item = 0 then pl_reserved p else it_reserved item)
         \<and> it_inbound m = (if it_inbound item = 0 then pl_inbound p else it_inbound item)
         \<and> it_sales7d m = pl_sales7d p
         \<and> it_age90plus m = (pl_age90plusUnits p > 0)
         \<and> it_sellThrough m = pl_sellThrough p)"
      by (simp add: mergeItem_def Let_def)
  qed
  from g e1 e2 show ?thesis by blast
qed

theorem merge_first_match_witness:
  "it_onHand (fst (mergeInventory (map summaryItem [live_summary ''A1'' 0, live_summary ''B2'' 3])
       (pc_items entry_1000)) ! 0) = 42
   \<and> it_sales7d (fst (mergeInventory (map summaryItem [live_summary ''A1'' 0, live_summary ''B2'' 3])
       (pc_items entry_1000)) ! 0) = 5"
  using merge_first_match [of 0 "map summaryItem [live_summary ''A1'' 0, live_summary ''B2'' 3]"
      "pc_items entry_1000" one_item]
  by (simp add: Let_def entry_1000_def live_summary_def summaryItem_def no_details_def coalesce_def
      one_item_def mergeItem_def)

text \<open>Two live summaries with the sku \<open>A1\<close> and nothing on hand, and a fresh planning
  record for \<open>A1\<close> with 42 available and 5 sold: the first item is merged, the second
  keeps \<open>onHand = 0\<close> and \<open>sales7d = 0\<close>.\<close>

theorem merge_duplicate_counterexample:
  "map it_sku (map summaryItem [live_summary ''A1'' 0, live_summary ''A1'' 0]) = [''A1'', ''A1'']
   \<and> map it_onHand (map summaryItem [live_summary ''A1'' 0, live_summary ''A1'' 0]) = [0, 0]
   \<and> getPlanningCache (cached_at_age 60000) US = Some entry_1000
   \<and> map_of (pc_items entry_1000) ''A1'' = Some one_item
   \<and> pl_available one_item = 42 \<and> pl_sales7d one_item = 5
   \<and> map it_sku (snapshot_inventory [live_summary ''A1'' 0, live_summary ''A1'' 0]) = [''A1'', ''A1'']
   \<and> map it_onHand (snapshot_inventory [live_summary ''A1'' 0, live_summary ''A1'' 0]) = [42, 0]
   \<and> map it_sales7d (snapshot_inventory [live_summary ''A1'' 0, live_summary ''A1'' 0]) = [5, 0]"
  by (simp add: snapshot_eval)

section \<open>Progress of the orchestrator\<close>

text \<open>
  Every step of a run keeps the calls made and, but for \<open>createReportOnce\<close>, the
  deadlines. As \<open>createReportOnce\<close> is only reached behind the cooldown gate, a run of
  \<open>refreshPlanningReport\<close> never moves a deadline back; and a run that finds
  credentials and no fresh planning entry makes at least one upstream call.
\<close>


lemma advances_refl: "advances e s s"
  by (simp add: advances_def)

lemma advances_trans: "advances e s s1 \<Longrightarrow> advances e s1 s2 \<Longrightarrow> advances e s s2"
  by (auto simp: advances_def)

lemma advances_perform: "advances e s (perform e c s)"
  by (simp add: advances_def perform_def)

lemma advances_sleep: "0 \<le> ms \<Longrightarrow> advances e s (sleep ms s)"
  by (simp add: advances_def sleep_def)

lemma advances_emit: "advances e s (emit l s)"
  by (simp add: advances_def emit_def)

lemma advances_cachePlanningReport: "advances e s (cachePlanningReport store content s)"
  by (simp add: advances_def cachePlanningReport_def emit_def Let_def split: prod.splits)

lemma advances_listReports: "advances e s (snd (listReports e store t s))"
  using advances_perform [of e s "ListReports store t"]
  by (simp add: listReports_def Let_def split: sum.splits option.splits)

lemma advances_getReport: "advances e s (snd (getReport e store rid s))"
  using advances_perform [of e s "GetReport store rid"]
  by (simp add: getReport_def Let_def)

lemma advances_getReportDocument: "advances e s (snd (getReportDocument e store d s))"
  using advances_perform [of e s "GetReportDocument store d"]
  by (simp add: getReportDocument_def Let_def)

lemma advances_downloadReport: "advances e s (snd (downloadReport e u c s))"
  using advances_perform [of e s "DownloadReport u c"]
  by (simp add: downloadReport_def Let_def)

lemma advances_fetched:
  "advances e s (snd (case downloadReport e u c s of
        (Inl err, s3) \<Rightarrow> (Inl err, s3)
      | (Inr content, s3) \<Rightarrow> (Inr b, emit l (cachePlanningReport store content s3))))"
proof (cases "downloadReport e u c s")
  case (Pair r s3)
  with advances_downloadReport [of e s u c] have a: "advances e s s3" by simp
  show ?thesis
  proof (cases r)
    case (Inl err)
    with Pair a show ?thesis by simp
  next
    case (Inr content)
    have "advances e s3 (emit l (cachePlanningReport store content s3))"
      using advances_cachePlanningReport advances_emit advances_trans by blast
    with a Pair Inr show ?thesis using advances_trans by auto
  qed
qed

lemma advances_pollLatest: "advances e s (snd (pollLatest n e store rid status s))"
proof (induction n arbitrary: s)
  case 0
  then show ?case by (simp add: advances_emit)
next
  case (Suc n)
  obtain r s1 where g: "getReport e store rid s = (r, s1)" by (cases "getReport e store rid s")
  with advances_getReport [of e s store rid] have a1: "advances e s s1" by simp
  show ?case
  proof (cases r)
    case (Inl err)
    with g a1 show ?thesis by simp
  next
    case (Inr report)
    show ?thesis
    proof (cases "is_done report")
      case True
      obtain r2 s2 where d: "getReportDocument e store (the (rs_reportDocumentId (the report))) s1 = (r2, s2)"
        by (cases "getReportDocument e store (the (rs_reportDocumentId (the report))) s1")
      with advances_getReportDocument [of e s1 store "the (rs_reportDocumentId (the report))"]
      have a2: "advances e s1 s2" by simp
      show ?thesis
      proof (cases r2)
        case (Inl err)
        with g Inr True d a1 a2 show ?thesis using advances_trans by auto
      next
        case (Inr document)
        show ?thesis
        proof (cases "document_url document = []")
          case True
          with g \<open>r = Inr report\<close> \<open>is_done report\<close> d Inr a1 a2 show ?thesis
            using advances_trans by auto
        next
          case False
          have "advances e s2 (snd (case downloadReport e (document_url document)
                           (compressionAlgorithm (the document)) s2 of
                      (Inl err, s3) \<Rightarrow> (Inl err, s3)
                    | (Inr content, s3) \<Rightarrow>
                        (Inr True,
                         emit (PlanningFinishedWhilePolling store)
                           (cachePlanningReport store content s3))))"
            by (rule advances_fetched)
          with a1 a2 have "advances e s (snd (case downloadReport e (document_url document)
                           (compressionAlgorithm (the document)) s2 of
                      (Inl err, s3) \<Rightarrow> (Inl err, s3)
                    | (Inr content, s3) \<Rightarrow>
                        (Inr True,
                         emit (PlanningFinishedWhilePolling store)
                           (cachePlanningReport store content s3))))"
            using advances_trans by blast
          with g \<open>r = Inr report\<close> \<open>is_done report\<close> d Inr False show ?thesis by simp
        qed
      qed
    next
      case False
      show ?thesis
      proof (cases "is_terminal_failure report")
        case True
        with g Inr False a1 show ?thesis by simp
      next
        case nt: False
        have "advances e s1 (sleep 10000 s1)" by (simp add: advances_sleep)
        with a1 Suc.IH [of "sleep 10000 s1"]
        have "advances e s (snd (pollLatest n e store rid status (sleep 10000 s1)))"
          using advances_trans by blast
        with g Inr False nt show ?thesis by simp
      qed
    qed
  qed
qed

lemma advances_pollReport: "advances e s (snd (pollReport n e store rid s))"
proof (induction n arbitrary: s)
  case 0
  then show ?case by (simp add: advances_refl)
next
  case (Suc n)
  obtain r s1 where g: "getReport e store rid s = (r, s1)" by (cases "getReport e store rid s")
  with advances_getReport [of e s store rid] have a1: "advances e s s1" by simp
  show ?case
  proof (cases r)
    case (Inl err)
    with g a1 show ?thesis by simp
  next
    case (Inr report)
    have "advances e s1 (sleep 10000 s1)" by (simp add: advances_sleep)
    with a1 Suc.IH [of "sleep 10000 s1"]
    have "advances e s (snd (pollReport n e store rid (sleep 10000 s1)))"
      using advances_trans by blast
    with g Inr a1 show ?thesis by simp
  qed
qed


lemma listReports_calls:
  "length (calls (snd (listReports e store t s))) = Suc (length (calls s))"
  by (simp add: listReports_def perform_def Let_def split: sum.splits option.splits)

lemma advances_loadLatest_after_list:
  "advances e (snd (listReports e store (clock s - 24 * 60 * 60 * 1000) s))
     (snd (loadLatestPlanningReport e store s))"
proof -
  obtain r s1 where l: "listReports e store (clock s - 24 * 60 * 60 * 1000) s = (r, s1)"
    by (cases "listReports e store (clock s - 24 * 60 * 60 * 1000) s")
  show ?thesis
  proof (cases r)
    case (Inl err)
    with l show ?thesis by (simp add: loadLatestPlanningReport_def Let_def advances_refl)
  next
    case (Inr reports)
    show ?thesis
    proof (cases "latestReport e reports")
      case None
      with l Inr show ?thesis by (simp add: loadLatestPlanningReport_def Let_def advances_refl)
    next
      case (Some latest)
      show ?thesis
      proof (cases "length reports = 0")
        case True
        with l Inr show ?thesis by (simp add: loadLatestPlanningReport_def Let_def advances_refl)
      next
        case ne: False
        show ?thesis
        proof (cases "truthy (ri_processingStatus latest)
                       \<and> ri_processingStatus latest \<noteq> Some ''DONE''")
          case True
          with l Inr Some ne show ?thesis
            by (simp add: loadLatestPlanningReport_def Let_def advances_pollLatest advances_emit)
        next
          case nd: False
          show ?thesis
          proof (cases "truthy (ri_reportDocumentId latest)")
            case False
            with l Inr Some ne nd show ?thesis
              by (auto simp: loadLatestPlanningReport_def Let_def advances_refl)
          next
            case True
            obtain r2 s2 where d: "getReportDocument e store (the (ri_reportDocumentId latest)) s1 = (r2, s2)"
              by (cases "getReportDocument e store (the (ri_reportDocumentId latest)) s1")
            with advances_getReportDocument [of e s1 store "the (ri_reportDocumentId latest)"]
            have a2: "advances e s1 s2" by simp
            show ?thesis
            proof (cases r2)
              case (Inl err)
              with l Inr Some ne nd True d a2 show ?thesis
                by (auto simp: loadLatestPlanningReport_def Let_def)
            next
              case doc: (Inr document)
              show ?thesis
              proof (cases "document_url document = []")
                case True
                with l Inr Some ne nd \<open>truthy (ri_reportDocumentId latest)\<close> d doc a2 show ?thesis
                  by (auto simp: loadLatestPlanningReport_def Let_def)
              next
                case False
                have "advances e s2 (snd (case downloadReport e (document_url document)
                           (compressionAlgorithm (the document)) s2 of
                      (Inl err, s3) \<Rightarrow> (Inl err, s3)
                    | (Inr content, s3) \<Rightarrow>
                        (Inr True,
                         emit (PlanningReused store)
                           (cachePlanningReport store content s3))))"
                  by (rule advances_fetched)
                with a2 have "advances e s1 (snd (case downloadReport e (document_url document)
                           (compressionAlgorithm (the document)) s2 of
                      (Inl err, s3) \<Rightarrow> (Inl err, s3)
                    | (Inr content, s3) \<Rightarrow>
                        (Inr True,
                         emit (PlanningReused store)
                           (cachePlanningReport store content s3))))"
                  using advances_trans by blast
                with l Inr Some ne nd \<open>truthy (ri_reportDocumentId latest)\<close> d doc False show ?thesis
                  by (auto simp: loadLatestPlanningReport_def Let_def)
              qed
            qed
          qed
        qed
      qed
    qed
  qed
qed

lemma advances_loadLatest: "advances e s (snd (loadLatestPlanningReport e store s))"
  using advances_listReports advances_loadLatest_after_list advances_trans by blast

lemma loadLatest_calls:
  "length (calls s) < length (calls (snd (loadLatestPlanningReport e store s)))"
  using advances_loadLatest_after_list [of e store s]
    listReports_calls [of e store "clock s - 24 * 60 * 60 * 1000" s]
  by (simp add: advances_def)

lemma advances_forward: "advances e s s' \<Longrightarrow> forward e s s'"
  by (simp add: advances_def forward_def)

lemma forward_trans: "forward e s s1 \<Longrightarrow> forward e s1 s2 \<Longrightarrow> forward e s s2"
  unfolding forward_def
  by (metis (no_types, lifting) order_trans)


lemma forward_createReportOnce:
  "\<not> clock s < (case reportCooldownUntil s store of None \<Rightarrow> 0 | Some c \<Rightarrow> c) \<Longrightarrow>
     forward e s (snd (createReportOnce e store s))"
proof -
  assume gate: "\<not> clock s < (case reportCooldownUntil s store of None \<Rightarrow> 0 | Some c \<Rightarrow> c)"
  let ?s1 = "perform e (CreateReport store) s"
  show ?thesis
  proof (cases "createReport_rsp e (calls ?s1)")
    case (Inr reportId)
    then have "snd (createReportOnce e store s) = ?s1"
      by (simp add: createReportOnce_def createReport_def Let_def)
    then show ?thesis using advances_perform advances_forward by metis
  next
    case (Inl error)
    show ?thesis
    proof (cases "err_status error = Some 429")
      case False
      with Inl have "snd (createReportOnce e store s) = ?s1"
        by (simp add: createReportOnce_def createReport_def Let_def)
      then show ?thesis using advances_perform advances_forward by metis
    next
      case True
      with Inl have eq: "snd (createReportOnce e store s) =
          emit (RateLimitedCoolingDown (backoff error))
            (?s1\<lparr>reportCooldownUntil :=
                    (reportCooldownUntil ?s1)(store \<mapsto> clock ?s1 + backoff error)\<rparr>)"
        by (simp add: createReportOnce_def createReport_def Let_def)
      have pos: "0 < backoff error"
        by (simp add: backoff_def REPORT_COOLDOWN_MS_def split: option.splits)
      show ?thesis
        unfolding eq forward_def
      proof (intro conjI impI allI)
        show "length (calls s) \<le> length (calls (emit (RateLimitedCoolingDown (backoff error))
            (?s1\<lparr>reportCooldownUntil :=
                    (reportCooldownUntil ?s1)(store \<mapsto> clock ?s1 + backoff error)\<rparr>)))"
          by (simp add: emit_def perform_def)
      next
        assume "\<forall>cs. 0 \<le> latency e cs"
        then show "clock s \<le> clock (emit (RateLimitedCoolingDown (backoff error))
            (?s1\<lparr>reportCooldownUntil :=
                    (reportCooldownUntil ?s1)(store \<mapsto> clock ?s1 + backoff error)\<rparr>))"
          by (simp add: emit_def perform_def)
      next
        fix st d
        assume lat: "\<forall>cs. 0 \<le> latency e cs" and old: "reportCooldownUntil s st = Some d"
        from lat have l0: "0 \<le> latency e (calls s @ [CreateReport store])" by blast
        show "\<exists>d'. reportCooldownUntil (emit (RateLimitedCoolingDown (backoff error))
            (?s1\<lparr>reportCooldownUntil :=
                    (reportCooldownUntil ?s1)(store \<mapsto> clock ?s1 + backoff error)\<rparr>)) st = Some d'
            \<and> d \<le> d'"
        proof (cases "st = store")
          case False
          with old show ?thesis by (simp add: emit_def perform_def)
        next
          case True
          with gate old have "d \<le> clock s" by simp
          with pos l0 have "d \<le> clock s + latency e (calls s @ [CreateReport store]) + backoff error"
            by linarith
          with True show ?thesis by (simp add: emit_def perform_def)
        qed
      qed
    qed
  qed
qed

lemma forward_refl: "forward e s s"
  by (simp add: forward_def)

lemma forward_after_create:
  "forward e s2 (snd (case pollReport 12 e store reportId s2 of
       (Inl err, s3) \<Rightarrow> (Inl err, s3)
     | (Inr reportDocumentId, s3) \<Rightarrow>
         if reportDocumentId = [] then (Inr (), s3)
         else
           (case getReportDocument e store reportDocumentId s3 of
              (Inl err, s4) \<Rightarrow> (Inl err, s4)
            | (Inr document, s4) \<Rightarrow>
                if document_url document = [] then (Inr (), s4)
                else
                  (case downloadReport e (document_url document)
                          (compressionAlgorithm (the document)) s4 of
                     (Inl err, s5) \<Rightarrow> (Inl err, s5)
                   | (Inr content, s5) \<Rightarrow>
                       let rows = parseTabDelimited content;
                           (items, agingRisk) = forEachRow rows;
                           s6 = s5\<lparr>planningCache := (planningCache s5)(store \<mapsto>
                                  \<lparr>pc_fetchedAt = clock s5, pc_items = items,
                                   pc_agingRisk = agingRisk\<rparr>)\<rparr>
                       in (Inr (),
                           emit (PlanningReportCached store (length items)) s6)))))"
proof -
  obtain r3 s3 where p: "pollReport 12 e store reportId s2 = (r3, s3)"
    by (cases "pollReport 12 e store reportId s2")
  with advances_pollReport [of e s2 12 store reportId] have a3: "advances e s2 s3" by simp
  show ?thesis
  proof (cases r3)
    case (Inl err)
    with p a3 show ?thesis by (simp add: advances_forward)
  next
    case (Inr reportDocumentId)
    show ?thesis
    proof (cases "reportDocumentId = []")
      case True
      with p Inr a3 show ?thesis by (simp add: advances_forward)
    next
      case False
      obtain r4 s4 where d: "getReportDocument e store reportDocumentId s3 = (r4, s4)"
        by (cases "getReportDocument e store reportDocumentId s3")
      with advances_getReportDocument [of e s3 store reportDocumentId]
      have a4: "advances e s2 s4" using a3 advances_trans by fastforce
      show ?thesis
      proof (cases r4)
        case (Inl err)
        with p Inr False d a4 show ?thesis by (simp add: advances_forward)
      next
        case doc: (Inr document)
        show ?thesis
        proof (cases "document_url document = []")
          case True
          with p Inr False d doc a4 show ?thesis by (simp add: advances_forward)
        next
          case nu: False
          obtain r5 s5 where dl: "downloadReport e (document_url document)
                          (compressionAlgorithm (the document)) s4 = (r5, s5)"
            by (cases "downloadReport e (document_url document)
                          (compressionAlgorithm (the document)) s4")
          with advances_downloadReport [of e s4 "document_url document"
              "compressionAlgorithm (the document)"]
          have a5: "advances e s2 s5" using a4 advances_trans by fastforce
          show ?thesis
          proof (cases r5)
            case (Inl err)
            with p Inr False d doc nu dl a5 show ?thesis by (simp add: advances_forward)
          next
            case (Inr content)
            have "advances e s5 (emit (PlanningReportCached store
                     (length (fst (forEachRow (parseTabDelimited content)))))
                  (s5\<lparr>planningCache := (planningCache s5)(store \<mapsto>
                                  \<lparr>pc_fetchedAt = clock s5,
                                   pc_items = fst (forEachRow (parseTabDelimited content)),
                                   pc_agingRisk = snd (forEachRow (parseTabDelimited content))\<rparr>)\<rparr>))"
              by (simp add: advances_def emit_def)
            with a5 have "forward e s2 (emit (PlanningReportCached store
                     (length (fst (forEachRow (parseTabDelimited content)))))
                  (s5\<lparr>planningCache := (planningCache s5)(store \<mapsto>
                                  \<lparr>pc_fetchedAt = clock s5,
                                   pc_items = fst (forEachRow (parseTabDelimited content)),
                                   pc_agingRisk = snd (forEachRow (parseTabDelimited content))\<rparr>)\<rparr>))"
              using advances_trans advances_forward by blast
            with p \<open>r3 = Inr reportDocumentId\<close> False d doc nu dl Inr show ?thesis
              by (simp add: Let_def case_prod_beta)
          qed
        qed
      qed
    qed
  qed
qed

lemma forward_refresh_try:
  "forward e s (snd (refreshPlanningReport_try e store s))
   \<and> length (calls s) < length (calls (snd (refreshPlanningReport_try e store s)))"
proof -
  obtain r1 s1 where l: "loadLatestPlanningReport e store s = (r1, s1)"
    by (cases "loadLatestPlanningReport e store s")
  with advances_loadLatest [of e s store] loadLatest_calls [of s e store]
  have a1: "forward e s s1" and c1: "length (calls s) < length (calls s1)"
    by (simp_all add: advances_forward)
  have step: "\<And>s'. forward e s1 s' \<Longrightarrow>
      forward e s s' \<and> length (calls s) < length (calls s')"
  proof -
    fix s'
    assume f: "forward e s1 s'"
    then have "length (calls s1) \<le> length (calls s')" by (simp add: forward_def)
    with c1 have "length (calls s) < length (calls s')" by simp
    moreover have "forward e s s'" using a1 f by (rule forward_trans)
    ultimately show "forward e s s' \<and> length (calls s) < length (calls s')" by simp
  qed
  show ?thesis
  proof (cases r1)
    case (Inl err)
    with l step [OF forward_refl] show ?thesis by (simp add: refreshPlanningReport_try_def)
  next
    case (Inr reused)
    show ?thesis
    proof (cases "reused \<or> clock s1 < (case reportCooldownUntil s1 store of None \<Rightarrow> 0 | Some c \<Rightarrow> c)")
      case True
      with l Inr step [OF forward_refl] show ?thesis
        by (auto simp: refreshPlanningReport_try_def Let_def)
    next
      case False
      then have gate: "\<not> clock s1 < (case reportCooldownUntil s1 store of None \<Rightarrow> 0 | Some c \<Rightarrow> c)"
        by simp
      obtain r2 s2 where c: "createReportOnce e store s1 = (r2, s2)"
        by (cases "createReportOnce e store s1")
      with forward_createReportOnce [OF gate, of e] have a2: "forward e s1 s2" by simp
      show ?thesis
      proof (cases r2)
        case (Inl err)
        with l Inr False c step [OF a2] show ?thesis
          by (auto simp: refreshPlanningReport_try_def Let_def)
      next
        case rid: (Inr reportId)
        show ?thesis
        proof (cases "reportId = []")
          case True
          with l Inr False c rid step [OF a2] show ?thesis
            by (auto simp: refreshPlanningReport_try_def Let_def)
        next
          case ne: False
          from forward_after_create [of e s2 store reportId] a2
          have "forward e s1 (snd (case pollReport 12 e store reportId s2 of
       (Inl err, s3) \<Rightarrow> (Inl err, s3)
     | (Inr reportDocumentId, s3) \<Rightarrow>
         if reportDocumentId = [] then (Inr (), s3)
         else
           (case getReportDocument e store reportDocumentId s3 of
              (Inl err, s4) \<Rightarrow> (Inl err, s4)
            | (Inr document, s4) \<Rightarrow>
                if document_url document = [] then (Inr (), s4)
                else
                  (case downloadReport e (document_url document)
                          (compressionAlgorithm (the document)) s4 of
                     (Inl err, s5) \<Rightarrow> (Inl err, s5)
                   | (Inr content, s5) \<Rightarrow>
                       let rows = parseTabDelimited content;
                           (items, agingRisk) = forEachRow rows;
                           s6 = s5\<lparr>planningCache := (planningCache s5)(store \<mapsto>
                                  \<lparr>pc_fetchedAt = clock s5, pc_items = items,
                                   pc_agingRisk = agingRisk\<rparr>)\<rparr>
                       in (Inr (),
                           emit (PlanningReportCached store (length items)) s6)))))"
            using forward_trans by blast
          from step [OF this] l Inr False c rid ne show ?thesis
            by (simp add: refreshPlanningReport_try_def Let_def)
        qed
      qed
    qed
  qed
qed

lemma refresh_forward:
  "forward e s (refreshPlanningReport e store s)"
proof -
  obtain r s' where t: "refreshPlanningReport_try e store s = (r, s')"
    by (cases "refreshPlanningReport_try e store s")
  with forward_refresh_try [of e s store] have f: "forward e s s'" by simp
  have "forward e s' (emit l s')" for l
    by (simp add: advances_emit advances_forward)
  with f have "forward e s (emit l s')" for l using forward_trans by blast
  with f t show ?thesis
    by (cases r) (simp_all add: refreshPlanningReport_def forward_refl)
qed

lemma refresh_calls_upstream:
  "hasCredentials e store \<Longrightarrow> getPlanningCache s store = None \<Longrightarrow>
     length (calls s) < length (calls (refreshPlanningReport e store s))"
proof -
  assume h: "hasCredentials e store" and g: "getPlanningCache s store = None"
  obtain r s' where t: "refreshPlanningReport_try e store s = (r, s')"
    by (cases "refreshPlanningReport_try e store s")
  with forward_refresh_try [of e s store] have c: "length (calls s) < length (calls s')" by simp
  with h g t show ?thesis
    by (cases r) (simp_all add: refreshPlanningReport_def emit_def)
qed

lemma refresh_deadline_forward:
  "\<forall>cs. 0 \<le> latency e cs \<Longrightarrow> reportCooldownUntil s st = Some d \<Longrightarrow>
     \<exists>d'. reportCooldownUntil (refreshPlanningReport e store s) st = Some d' \<and> d \<le> d'"
  using refresh_forward [of e s store] by (simp add: forward_def)

end
